theory Spec2Isabelle
  imports Main
begin

section \<open>Data model of the keybinding resolver\<close>

text \<open>
  The development follows \<^verbatim>\<open>keybindingResolver.ts\<close> and \<^verbatim>\<open>abstractKeybindingService.ts\<close>.
  JavaScript strings are modelled as \<^typ>\<open>string\<close> (a list of code units), \<^verbatim>\<open>null\<close> as
  \<^term>\<open>None\<close>. The classes \<^verbatim>\<open>Keybinding\<close> (keyCodes.ts) and \<^verbatim>\<open>ContextKeyExpr\<close>
  (contextkey.ts) are not part of the sources at hand.
\<close>

text \<open>
  Modelled from the spec: the class \<^verbatim>\<open>Keybinding\<close> of keyCodes.ts is missing. The spec
  describes a keybinding as an ordered sequence of one or two key-press codes, a sequence
  of two being a chord, with structural equality; a key-press code is an integer-like
  primitive. Comparing the \<^verbatim>\<open>value\<close> of two keybindings is comparing the keybindings, and
  a case distinction on a keybinding stands for \<^verbatim>\<open>isChord\<close> followed by
  \<^verbatim>\<open>extractFirstPart\<close> and \<^verbatim>\<open>extractChordPart\<close>.
\<close>

datatype Keybinding = SimpleKeybinding nat | ChordKeybinding nat nat

fun isChord :: "Keybinding \<Rightarrow> bool" where
  "isChord (SimpleKeybinding k) = False"
| "isChord (ChordKeybinding k1 k2) = True"

text \<open>
  Modelled from the spec: \<^verbatim>\<open>keybinding.equals(other)\<close> of the missing class, the structural
  equality the spec gives keybindings; \<^verbatim>\<open>other\<close> may be \<^verbatim>\<open>null\<close>, which equals no keybinding.
\<close>

definition kb_equals :: "Keybinding \<Rightarrow> Keybinding option \<Rightarrow> bool" where
  "kb_equals kb other = (other = Some kb)"

text \<open>
  \<^verbatim>\<open>IResolveResult\<close>: the value \<^verbatim>\<open>resolve\<close> returns (\<^verbatim>\<open>null\<close> is \<^term>\<open>None\<close> of the option
  type around it). Its fields \<^verbatim>\<open>commandArgs\<close> and \<^verbatim>\<open>bubble\<close> carry the prefix \<open>res_\<close>, since
  the rule has fields of the same names.
\<close>

record 'a IResolveResult =
  enterChord :: "nat option"
  commandId :: "string option"
  res_commandArgs :: "'a option"
  res_bubble :: bool

text \<open>
  The class \<^verbatim>\<open>ContextKeyExpr\<close> is missing from the sources, so its interface is a
  parameter: the condition type is a type variable \<open>'w\<close>, the context type a type variable
  \<open>'c\<close>, and the four methods the resolver calls are the fields of a record that every
  function calling one of them takes as its first argument.
\<close>

record ('w, 'c) ContextKeyExprOps =
  serialize :: "'w \<Rightarrow> string"
  normalize :: "'w \<Rightarrow> 'w"
  equals :: "'w \<Rightarrow> 'w \<Rightarrow> bool"
  evaluate :: "'w \<Rightarrow> 'c \<Rightarrow> bool"

text \<open>
  \<^verbatim>\<open>NormalizedKeybindingItem\<close>. The field \<^verbatim>\<open>when\<close> is named \<open>when_expr\<close>. Two items are
  compared with \<^verbatim>\<open>===\<close> in one place (\<^verbatim>\<open>_removeFromLookupMap\<close>); the model compares the
  records, so an item is identified with its contents.
\<close>

record ('a, 'w) NormalizedKeybindingItem =
  keybinding :: "Keybinding option"
  bubble :: bool
  command :: "string option"
  commandArgs :: "'a option"
  when_expr :: "'w option"
  isDefault :: bool

text \<open>
  The constructor of \<^verbatim>\<open>NormalizedKeybindingItem\<close>: \<^verbatim>\<open>bubble\<close> is whether the raw command
  starts with the caret, and the caret is dropped from the command then.
\<close>

definition mkNormalizedKeybindingItem ::
  "Keybinding option \<Rightarrow> string option \<Rightarrow> 'a option \<Rightarrow> 'w option \<Rightarrow> bool
    \<Rightarrow> ('a, 'w) NormalizedKeybindingItem" where
  "mkNormalizedKeybindingItem kb cmd args w isDef =
     (let bub = (case cmd of
                   None \<Rightarrow> False
                 | Some [] \<Rightarrow> False
                 | Some (c # cs) \<Rightarrow> c = CHR ''^'')
      in \<lparr> keybinding = kb,
           bubble = bub,
           command = (if bub then map_option (drop 1) cmd else cmd),
           commandArgs = args,
           when_expr = w,
           isDefault = isDef \<rparr>)"

section \<open>The rule-set combiner\<close>

text \<open>\<^verbatim>\<open>KeybindingResolver._isTargetedForRemoval\<close>.\<close>

definition isTargetedForRemoval ::
  "('w, 'c) ContextKeyExprOps \<Rightarrow> ('a, 'w) NormalizedKeybindingItem \<Rightarrow> Keybinding option
    \<Rightarrow> string \<Rightarrow> 'w option \<Rightarrow> bool" where
  "isTargetedForRemoval ops defaultKb kb cmd w =
     (if command defaultKb \<noteq> Some cmd then False
      else if (case kb of None \<Rightarrow> False | Some k \<Rightarrow> \<not> kb_equals k (keybinding defaultKb))
      then False
      else (case w of
              None \<Rightarrow> True
            | Some w' \<Rightarrow>
                (case when_expr defaultKb of
                   None \<Rightarrow> False
                 | Some dw \<Rightarrow> equals ops w' dw)))"

text \<open>\<^verbatim>\<open>arr.splice(j, 1)\<close>.\<close>

definition splice1 :: "'x list \<Rightarrow> nat \<Rightarrow> 'x list" where
  "splice1 xs j = take j xs @ drop (Suc j) xs"

text \<open>
  The inner loop of \<^verbatim>\<open>combine\<close>: \<^verbatim>\<open>for (j = defaults.length - 1; j >= 0; j--)\<close>. The
  last argument is \<open>j + 1\<close>; the loop starts with it at \<open>length defaults\<close>.
\<close>

fun removeTargeted ::
  "('w, 'c) ContextKeyExprOps \<Rightarrow> Keybinding option \<Rightarrow> string \<Rightarrow> 'w option
    \<Rightarrow> ('a, 'w) NormalizedKeybindingItem list \<Rightarrow> nat \<Rightarrow> ('a, 'w) NormalizedKeybindingItem list" where
  "removeTargeted ops kb cmd w defaults 0 = defaults"
| "removeTargeted ops kb cmd w defaults (Suc j) =
     (if isTargetedForRemoval ops (defaults ! j) kb cmd w
      then removeTargeted ops kb cmd w (splice1 defaults j) j
      else removeTargeted ops kb cmd w defaults j)"

text \<open>
  The test at the head of the outer loop: the override is kept as a rule unless its
  command is a non-empty string starting with \<^verbatim>\<open>'-'\<close>.
\<close>

definition isRemovalDirective :: "('a, 'w) NormalizedKeybindingItem \<Rightarrow> bool" where
  "isRemovalDirective override =
     (case command override of
        None \<Rightarrow> False
      | Some [] \<Rightarrow> False
      | Some (c # cs) \<Rightarrow> c = CHR ''-'')"

text \<open>The outer loop of \<^verbatim>\<open>combine\<close>, threading \<^verbatim>\<open>defaults\<close> and \<^verbatim>\<open>overrides\<close>.\<close>

fun combineLoop ::
  "('w, 'c) ContextKeyExprOps \<Rightarrow> ('a, 'w) NormalizedKeybindingItem list
    \<Rightarrow> ('a, 'w) NormalizedKeybindingItem list \<Rightarrow> ('a, 'w) NormalizedKeybindingItem list
    \<Rightarrow> ('a, 'w) NormalizedKeybindingItem list \<times> ('a, 'w) NormalizedKeybindingItem list" where
  "combineLoop ops defaults overrides [] = (defaults, overrides)"
| "combineLoop ops defaults overrides (override # rest) =
     (if \<not> isRemovalDirective override
      then combineLoop ops defaults (overrides @ [override]) rest
      else combineLoop ops
             (removeTargeted ops (keybinding override)
                (drop 1 (case command override of None \<Rightarrow> [] | Some c \<Rightarrow> c))
                (when_expr override) defaults (length defaults))
             overrides rest)"

definition combine ::
  "('w, 'c) ContextKeyExprOps \<Rightarrow> ('a, 'w) NormalizedKeybindingItem list
    \<Rightarrow> ('a, 'w) NormalizedKeybindingItem list \<Rightarrow> ('a, 'w) NormalizedKeybindingItem list" where
  "combine ops defaults rawOverrides =
     (case combineLoop ops defaults [] rawOverrides of
        (defaults', overrides) \<Rightarrow> defaults' @ overrides)"

text \<open>
  The removal rule in the words of the spec, to compare \<^const>\<open>combine\<close> with: a removal
  directive deletes the default rule \<open>d\<close> when \<open>d\<close> is bound to the directive's command with
  the marker stripped, the directive's keybinding is absent or equals that of \<open>d\<close>, and the
  directive's condition is absent or equals that of \<open>d\<close>.
\<close>

definition spec_deletes ::
  "('w, 'c) ContextKeyExprOps \<Rightarrow> ('a, 'w) NormalizedKeybindingItem
    \<Rightarrow> ('a, 'w) NormalizedKeybindingItem \<Rightarrow> bool" where
  "spec_deletes ops directive d =
     (isRemovalDirective directive \<and>
      command d = map_option (drop 1) (command directive) \<and>
      (keybinding directive = None \<or> keybinding directive = keybinding d) \<and>
      (case when_expr directive of
         None \<Rightarrow> True
       | Some w \<Rightarrow> (case when_expr d of None \<Rightarrow> False | Some dw \<Rightarrow> equals ops w dw)))"

section \<open>The resolver index\<close>

text \<open>
  \<^verbatim>\<open>str.split(sep)\<close> of JavaScript for a non-empty separator: the string is cut at each
  occurrence of \<open>sep\<close>, found from left to right, and a string without one is returned
  whole (so the empty string gives one empty part). \<open>acc\<close> holds the current part,
  reversed.
\<close>

function js_split_from :: "string \<Rightarrow> string \<Rightarrow> string \<Rightarrow> string list" where
  "js_split_from sep acc [] = [rev acc]"
| "js_split_from sep acc (c # cs) =
     (if sep \<noteq> [] \<and> take (length sep) (c # cs) = sep
      then rev acc # js_split_from sep [] (drop (length sep - 1) cs)
      else js_split_from sep (c # acc) cs)"
  by pat_completeness auto
termination
  by (relation "measure (\<lambda>(sep, acc, s). length s)") auto

definition js_split :: "string \<Rightarrow> string \<Rightarrow> string list" where
  "js_split s sep = js_split_from sep [] s"

text \<open>
  \<^verbatim>\<open>KeybindingResolver.whenIsEntirelyIncluded\<close>. The dictionary \<^verbatim>\<open>aRules\<close> has no
  prototype, so it is the set of the parts of \<^verbatim>\<open>a.serialize()\<close>.
\<close>

definition whenIsEntirelyIncluded ::
  "('w, 'c) ContextKeyExprOps \<Rightarrow> bool \<Rightarrow> 'w option \<Rightarrow> 'w option \<Rightarrow> bool" where
  "whenIsEntirelyIncluded ops inNormalizedForm a0 b0 =
     (let a = (if \<not> inNormalizedForm then map_option (normalize ops) a0 else a0);
          b = (if \<not> inNormalizedForm then map_option (normalize ops) b0 else b0)
      in case b of
           None \<Rightarrow> True
         | Some bw \<Rightarrow>
             (case a of
                None \<Rightarrow> False
              | Some aw \<Rightarrow>
                  (let aRulesArr = js_split (serialize ops aw) '' && '';
                       bRulesArr = js_split (serialize ops bw) '' && ''
                   in list_all (\<lambda>rule. rule \<in> set aRulesArr) bRulesArr)))"

text \<open>
  The diagnostic \<^verbatim>\<open>console.warn\<close> prints when a conflict is detected: the command and the
  keybinding of the shadowed rule, and the command of the rule that shadows it.
\<close>

datatype Warning = ConflictDetected "string option" "Keybinding option" "string option"

text \<open>
  The fields of \<^verbatim>\<open>KeybindingResolver\<close>, without their leading underscore (\<^verbatim>\<open>_map\<close> is
  \<open>map'\<close>), and the console the constructor writes its warnings to. The dictionaries are
  partial functions.
\<close>

record ('a, 'w) KeybindingResolver =
  defaultKeybindings :: "('a, 'w) NormalizedKeybindingItem list"
  shouldWarnOnConflict :: bool
  defaultBoundCommands :: "string \<rightharpoonup> bool"
  map' :: "nat \<rightharpoonup> ('a, 'w) NormalizedKeybindingItem list"
  chords :: "nat \<rightharpoonup> (nat \<rightharpoonup> ('a, 'w) NormalizedKeybindingItem list)"
  lookupMap :: "string \<rightharpoonup> ('a, 'w) NormalizedKeybindingItem list"
  console :: "Warning list"

text \<open>\<^verbatim>\<open>_addToLookupMap\<close>: a \<^verbatim>\<open>null\<close> or empty command is not indexed.\<close>

definition addToLookupMap ::
  "('a, 'w) NormalizedKeybindingItem \<Rightarrow> ('a, 'w) KeybindingResolver \<Rightarrow> ('a, 'w) KeybindingResolver" where
  "addToLookupMap item r =
     (case command item of
        None \<Rightarrow> r
      | Some [] \<Rightarrow> r
      | Some (c # cs) \<Rightarrow>
          (case lookupMap r (c # cs) of
             None \<Rightarrow> r\<lparr>lookupMap := (lookupMap r)(c # cs \<mapsto> [item])\<rparr>
           | Some arr \<Rightarrow> r\<lparr>lookupMap := (lookupMap r)(c # cs \<mapsto> arr @ [item])\<rparr>))"

text \<open>
  \<^verbatim>\<open>_removeFromLookupMap\<close>: the first entry that is the item is spliced out
  (\<^const>\<open>remove1\<close>). No list is stored under a \<^verbatim>\<open>null\<close> command.
\<close>

definition removeFromLookupMap ::
  "('a, 'w) NormalizedKeybindingItem \<Rightarrow> ('a, 'w) KeybindingResolver \<Rightarrow> ('a, 'w) KeybindingResolver" where
  "removeFromLookupMap item r =
     (case command item of
        None \<Rightarrow> r
      | Some cmd \<Rightarrow>
          (case lookupMap r cmd of
             None \<Rightarrow> r
           | Some arr \<Rightarrow> r\<lparr>lookupMap := (lookupMap r)(cmd \<mapsto> remove1 item arr)\<rparr>))"

text \<open>
  \<^verbatim>\<open>keybinding.isChord()\<close> on the keybinding of an indexed rule. Only rules with a
  keybinding are indexed, so the case \<^term>\<open>None\<close> is not reached from the constructor.
\<close>

definition itemIsChord :: "('a, 'w) NormalizedKeybindingItem \<Rightarrow> bool" where
  "itemIsChord item = (case keybinding item of None \<Rightarrow> False | Some kb \<Rightarrow> isChord kb)"

text \<open>
  The three tests of the loop of \<^verbatim>\<open>_addKeyPress\<close>: the candidate \<^verbatim>\<open>conflict\<close> is shadowed
  by \<^verbatim>\<open>item\<close> when the commands differ, the two are not chords with different sequences,
  and \<^verbatim>\<open>whenIsEntirelyIncluded(true, conflict.when, item.when)\<close> holds.
\<close>

definition isShadowedBy ::
  "('w, 'c) ContextKeyExprOps \<Rightarrow> ('a, 'w) NormalizedKeybindingItem
    \<Rightarrow> ('a, 'w) NormalizedKeybindingItem \<Rightarrow> bool" where
  "isShadowedBy ops conflict item =
     (if command conflict = command item then False
      else if itemIsChord conflict \<and> itemIsChord item \<and> keybinding conflict \<noteq> keybinding item
      then False
      else whenIsEntirelyIncluded ops True (when_expr conflict) (when_expr item))"

text \<open>
  The loop of \<^verbatim>\<open>_addKeyPress\<close> over the candidates, given from the last one to the first:
  a shadowed candidate is reported on the console when \<^verbatim>\<open>_shouldWarnOnConflict\<close> and
  \<^verbatim>\<open>item.isDefault\<close> hold, and is removed from the lookup map.
\<close>

fun conflictLoop ::
  "('w, 'c) ContextKeyExprOps \<Rightarrow> ('a, 'w) NormalizedKeybindingItem
    \<Rightarrow> ('a, 'w) NormalizedKeybindingItem list \<Rightarrow> ('a, 'w) KeybindingResolver
    \<Rightarrow> ('a, 'w) KeybindingResolver" where
  "conflictLoop ops item [] r = r"
| "conflictLoop ops item (conflict # rest) r =
     (if isShadowedBy ops conflict item
      then conflictLoop ops item rest
             (removeFromLookupMap conflict
                (if shouldWarnOnConflict r \<and> isDefault item
                 then r\<lparr>console := console r @
                        [ConflictDetected (command conflict) (keybinding conflict) (command item)]\<rparr>
                 else r))
      else conflictLoop ops item rest r)"

text \<open>\<^verbatim>\<open>_addKeyPress\<close>.\<close>

definition addKeyPress ::
  "('w, 'c) ContextKeyExprOps \<Rightarrow> nat \<Rightarrow> ('a, 'w) NormalizedKeybindingItem
    \<Rightarrow> ('a, 'w) KeybindingResolver \<Rightarrow> ('a, 'w) KeybindingResolver" where
  "addKeyPress ops keypress item r =
     (case map' r keypress of
        None \<Rightarrow> addToLookupMap item (r\<lparr>map' := (map' r)(keypress \<mapsto> [item])\<rparr>)
      | Some conflicts \<Rightarrow>
          (let r' = conflictLoop ops item (rev conflicts) r
           in addToLookupMap item (r'\<lparr>map' := (map' r')(keypress \<mapsto> conflicts @ [item])\<rparr>)))"

text \<open>
  The body of the second loop of the constructor, for one rule \<open>k\<close>: a rule without a
  keybinding is skipped, a chord is stored in \<^verbatim>\<open>_chords\<close> and added under its first part,
  a single key-press is added under its value.
\<close>

definition indexItem ::
  "('w, 'c) ContextKeyExprOps \<Rightarrow> ('a, 'w) NormalizedKeybindingItem
    \<Rightarrow> ('a, 'w) KeybindingResolver \<Rightarrow> ('a, 'w) KeybindingResolver" where
  "indexItem ops k r =
     (case keybinding k of
        None \<Rightarrow> r
      | Some (ChordKeybinding keybindingFirstPart keybindingChordPart) \<Rightarrow>
          (let byFirst = (case chords r keybindingFirstPart of None \<Rightarrow> Map.empty | Some m \<Rightarrow> m);
               bucket = (case byFirst keybindingChordPart of None \<Rightarrow> [] | Some arr \<Rightarrow> arr)
           in addKeyPress ops keybindingFirstPart k
                (r\<lparr>chords := (chords r)(keybindingFirstPart \<mapsto>
                      byFirst(keybindingChordPart \<mapsto> bucket @ [k]))\<rparr>))
      | Some (SimpleKeybinding v) \<Rightarrow> addKeyPress ops v k r)"

fun indexAll ::
  "('w, 'c) ContextKeyExprOps \<Rightarrow> ('a, 'w) NormalizedKeybindingItem list
    \<Rightarrow> ('a, 'w) KeybindingResolver \<Rightarrow> ('a, 'w) KeybindingResolver" where
  "indexAll ops [] r = r"
| "indexAll ops (k # ks) r = indexAll ops ks (indexItem ops k r)"

text \<open>
  The first loop of the constructor. A command is a property key of the dictionary
  \<^verbatim>\<open>_defaultBoundCommands\<close>, and \<^verbatim>\<open>null\<close> as a property key is the string \<^verbatim>\<open>"null"\<close>.
\<close>

definition propertyKey :: "string option \<Rightarrow> string" where
  "propertyKey cmd = (case cmd of None \<Rightarrow> ''null'' | Some c \<Rightarrow> c)"

fun boundCommandsLoop ::
  "('a, 'w) NormalizedKeybindingItem list \<Rightarrow> (string \<rightharpoonup> bool) \<Rightarrow> (string \<rightharpoonup> bool)" where
  "boundCommandsLoop [] m = m"
| "boundCommandsLoop (k # ks) m = boundCommandsLoop ks (m(propertyKey (command k) \<mapsto> True))"

text \<open>The constructor of \<^verbatim>\<open>KeybindingResolver\<close>.\<close>

definition mkKeybindingResolver ::
  "('w, 'c) ContextKeyExprOps \<Rightarrow> ('a, 'w) NormalizedKeybindingItem list
    \<Rightarrow> ('a, 'w) NormalizedKeybindingItem list \<Rightarrow> bool \<Rightarrow> ('a, 'w) KeybindingResolver" where
  "mkKeybindingResolver ops defaultKbs overrides warn =
     indexAll ops (combine ops defaultKbs overrides)
       \<lparr> defaultKeybindings = defaultKbs,
         shouldWarnOnConflict = warn,
         defaultBoundCommands = boundCommandsLoop defaultKbs Map.empty,
         map' = Map.empty,
         chords = Map.empty,
         lookupMap = Map.empty,
         console = [] \<rparr>"

definition getDefaultBoundCommands :: "('a, 'w) KeybindingResolver \<Rightarrow> (string \<rightharpoonup> bool)" where
  "getDefaultBoundCommands r = defaultBoundCommands r"

text \<open>\<^verbatim>\<open>lookupKeybindings\<close>: the rules stored under the command, last one first.\<close>

definition lookupKeybindings ::
  "('a, 'w) KeybindingResolver \<Rightarrow> string \<Rightarrow> ('a, 'w) NormalizedKeybindingItem list" where
  "lookupKeybindings r cmd =
     (case lookupMap r cmd of
        None \<Rightarrow> []
      | Some items \<Rightarrow> rev items)"

definition lookupPrimaryKeybinding ::
  "('a, 'w) KeybindingResolver \<Rightarrow> string \<Rightarrow> ('a, 'w) NormalizedKeybindingItem option" where
  "lookupPrimaryKeybinding r cmd =
     (case lookupMap r cmd of
        None \<Rightarrow> None
      | Some items \<Rightarrow> (if items = [] then None else Some (last items)))"

section \<open>Resolution\<close>

definition contextMatchesRules :: "('w, 'c) ContextKeyExprOps \<Rightarrow> 'c \<Rightarrow> 'w option \<Rightarrow> bool" where
  "contextMatchesRules ops context rules =
     (case rules of None \<Rightarrow> True | Some w \<Rightarrow> evaluate ops w context)"

text \<open>\<^verbatim>\<open>_findCommand\<close>: the last candidate whose condition matches the context.\<close>

definition findCommand ::
  "('w, 'c) ContextKeyExprOps \<Rightarrow> 'c \<Rightarrow> ('a, 'w) NormalizedKeybindingItem list option
    \<Rightarrow> ('a, 'w) NormalizedKeybindingItem option" where
  "findCommand ops context matches =
     (case matches of
        None \<Rightarrow> None
      | Some ms \<Rightarrow> find (\<lambda>k. contextMatchesRules ops context (when_expr k)) (rev ms))"

text \<open>
  \<^verbatim>\<open>KeybindingResolver.resolve\<close>; \<open>resolveIn\<close> is the part after the candidate list has been
  picked.
\<close>

definition resolveIn ::
  "('w, 'c) ContextKeyExprOps \<Rightarrow> 'c \<Rightarrow> nat option \<Rightarrow> nat
    \<Rightarrow> ('a, 'w) NormalizedKeybindingItem list option \<Rightarrow> 'a IResolveResult option" where
  "resolveIn ops context currentChord keypress lookup =
     (case findCommand ops context lookup of
        None \<Rightarrow> None
      | Some result \<Rightarrow>
          (if currentChord = None \<and> itemIsChord result
           then Some \<lparr> enterChord = Some keypress, commandId = None,
                       res_commandArgs = None, res_bubble = False \<rparr>
           else Some \<lparr> enterChord = None, commandId = command result,
                       res_commandArgs = commandArgs result, res_bubble = bubble result \<rparr>))"

definition resolve ::
  "('w, 'c) ContextKeyExprOps \<Rightarrow> ('a, 'w) KeybindingResolver \<Rightarrow> 'c \<Rightarrow> nat option \<Rightarrow> nat
    \<Rightarrow> 'a IResolveResult option" where
  "resolve ops r context currentChord keypress =
     (case currentChord of
        Some chord \<Rightarrow>
          (case chords r chord of
             None \<Rightarrow> None
           | Some chs \<Rightarrow> resolveIn ops context currentChord keypress (chs keypress))
      | None \<Rightarrow> resolveIn ops context currentChord keypress (map' r keypress))"

section \<open>The dispatcher\<close>

text \<open>
  The two messages \<^verbatim>\<open>_dispatch\<close> sets on the status bar: the first part of a chord was
  pressed, and the two key-presses are not a command.
\<close>

datatype StatusMessage = FirstChord nat | MissingChord nat nat

text \<open>The mutable fields of \<^verbatim>\<open>AbstractKeybindingService\<close>.\<close>

record ServiceState =
  currentChord :: "nat option"
  currentChordStatusMessage :: "StatusMessage option"

text \<open>
  The arguments of a command have the type \<^verbatim>\<open>any\<close>, a type variable here. What
  \<^verbatim>\<open>_dispatch\<close> does with them, \<^verbatim>\<open>resolveResult.commandArgs || {}\<close>, needs to know which
  values are falsy and the empty object: the two are parameters. \<^verbatim>\<open>null\<close> is falsy.
\<close>

record 'a AnyOps =
  falsy :: "'a \<Rightarrow> bool"
  emptyObject :: 'a

definition orEmptyObject :: "'a AnyOps \<Rightarrow> 'a option \<Rightarrow> 'a" where
  "orEmptyObject js args =
     (case args of
        None \<Rightarrow> emptyObject js
      | Some a \<Rightarrow> (if falsy js a then emptyObject js else a))"

text \<open>
  What one call of \<^verbatim>\<open>_dispatch\<close> does: the boolean it returns, the fields afterwards, the
  messages it has set on the status bar, and the command and the arguments it has handed
  to the command service.
\<close>

record 'a DispatchResult =
  shouldPreventDefault :: bool
  serviceAfter :: ServiceState
  statusMessages :: "StatusMessage list"
  executed :: "(string \<times> 'a) option"

text \<open>
  \<^verbatim>\<open>AbstractKeybindingService.resolve\<close>. The method \<^verbatim>\<open>isModifierKey\<close> of the key-press
  is a parameter, and the context value of the target is given in place of the target.
\<close>

definition service_resolve ::
  "('w, 'c) ContextKeyExprOps \<Rightarrow> (nat \<Rightarrow> bool) \<Rightarrow> ('a, 'w) KeybindingResolver \<Rightarrow> ServiceState
    \<Rightarrow> nat \<Rightarrow> 'c \<Rightarrow> 'a IResolveResult option" where
  "service_resolve ops isModifierKey resolver st kb contextValue =
     (if isModifierKey kb then None
      else resolve ops resolver contextValue (currentChord st) kb)"

text \<open>A string is truthy when it is neither \<^verbatim>\<open>null\<close> nor empty.\<close>

definition truthy :: "string option \<Rightarrow> bool" where
  "truthy s = (case s of None \<Rightarrow> False | Some [] \<Rightarrow> False | Some (c # cs) \<Rightarrow> True)"

text \<open>
  \<^verbatim>\<open>AbstractKeybindingService._dispatch\<close>; \<open>statusService\<close> tells whether the optional
  status service was given to the constructor, \<open>js\<close> is what is known of the arguments.
\<close>

definition dispatch ::
  "('w, 'c) ContextKeyExprOps \<Rightarrow> (nat \<Rightarrow> bool) \<Rightarrow> bool \<Rightarrow> 'a AnyOps
    \<Rightarrow> ('a, 'w) KeybindingResolver \<Rightarrow> ServiceState \<Rightarrow> nat \<Rightarrow> 'c \<Rightarrow> 'a DispatchResult" where
  "dispatch ops isModifierKey statusService js resolver st kb contextValue =
     (if isModifierKey kb
      then \<lparr> shouldPreventDefault = False, serviceAfter = st,
             statusMessages = [], executed = None \<rparr>
      else
        (let resolveResult = service_resolve ops isModifierKey resolver st kb contextValue
         in case (case resolveResult of None \<Rightarrow> None | Some res \<Rightarrow> enterChord res) of
              Some chord \<Rightarrow>
                \<lparr> shouldPreventDefault = True,
                  serviceAfter =
                    (if statusService
                     then \<lparr> currentChord = Some chord,
                            currentChordStatusMessage = Some (FirstChord chord) \<rparr>
                     else st\<lparr>currentChord := Some chord\<rparr>),
                  statusMessages = (if statusService then [FirstChord chord] else []),
                  executed = None \<rparr>
            | None \<Rightarrow>
                (let hasCommand =
                       (case resolveResult of None \<Rightarrow> False | Some res \<Rightarrow> truthy (commandId res));
                     missing = (statusService \<and> currentChord st \<noteq> None \<and> \<not> hasCommand)
                 in \<lparr> shouldPreventDefault =
                        (missing \<or>
                         (case resolveResult of
                            None \<Rightarrow> False
                          | Some res \<Rightarrow> truthy (commandId res) \<and> \<not> res_bubble res)),
                      serviceAfter = \<lparr> currentChord = None, currentChordStatusMessage = None \<rparr>,
                      statusMessages =
                        (case currentChord st of
                           None \<Rightarrow> []
                         | Some first \<Rightarrow> (if missing then [MissingChord first kb] else [])),
                      executed =
                        (case resolveResult of
                           None \<Rightarrow> None
                         | Some res \<Rightarrow>
                             (case commandId res of
                                None \<Rightarrow> None
                              | Some [] \<Rightarrow> None
                              | Some (c # cs) \<Rightarrow>
                                  Some (c # cs, orEmptyObject js (res_commandArgs res)))) \<rparr>)))"

section \<open>The text of the default rules\<close>

text \<open>
  \<^verbatim>\<open>arr.join(sep)\<close>, and \<^verbatim>\<open>new Array(n)\<close>, whose \<open>n\<close> empty slots are joined as empty
  strings.
\<close>

fun js_join :: "string list \<Rightarrow> string \<Rightarrow> string" where
  "js_join [] sep = []"
| "js_join [x] sep = x"
| "js_join (x # y # ys) sep = x @ sep @ js_join (y # ys) sep"

definition new_Array :: "nat \<Rightarrow> string list" where
  "new_Array n = replicate n []"

definition rightPaddedString :: "string \<Rightarrow> nat \<Rightarrow> string" where
  "rightPaddedString str minChars =
     (if length str < minChars
      then str @ js_join (new_Array (minChars - length str)) '' ''
      else str)"

text \<open>\<^verbatim>\<open>OutputBuilder\<close>; its methods \<^verbatim>\<open>write\<close> and \<^verbatim>\<open>writeLine\<close> carry the prefix \<open>ob_\<close>.\<close>

record OutputBuilder =
  lines :: "string list"
  currentLine :: string

definition ob_write :: "OutputBuilder \<Rightarrow> string \<Rightarrow> OutputBuilder" where
  "ob_write out str = out\<lparr>currentLine := currentLine out @ str\<rparr>"

definition ob_writeLine :: "OutputBuilder \<Rightarrow> string \<Rightarrow> OutputBuilder" where
  "ob_writeLine out str = \<lparr> lines = lines out @ [currentLine out @ str], currentLine = [] \<rparr>"

text \<open>
  The first \<^verbatim>\<open>write\<close> of \<^verbatim>\<open>IOSupport.writeKeybindingItem\<close>: the key field of an entry. Its
  argument is \<^verbatim>\<open>quotedSerializedKeybinding\<close>, the JSON string of the label of the
  keybinding (the labels are not part of the sources).
\<close>

definition keyField :: \<open>string \<Rightarrow> string\<close> where
  \<open>keyField quotedSerializedKeybinding =
     ''{ "key": '' @ rightPaddedString (quotedSerializedKeybinding @ '','') 25 @ '' "command": ''\<close>


text \<open>
  \<^verbatim>\<open>IOSupport.writeKeybindingItem\<close>; \<open>quoteKb\<close> is
  \<^verbatim>\<open>JSON.stringify(IOSupport.writeKeybinding(kb))\<close> and \<open>quoteCmd\<close> is \<^verbatim>\<open>JSON.stringify\<close> on a
  command.
\<close>

definition writeKeybindingItem ::
  \<open>('w, 'c) ContextKeyExprOps \<Rightarrow> (Keybinding option \<Rightarrow> string) \<Rightarrow> (string option \<Rightarrow> string)
    \<Rightarrow> OutputBuilder \<Rightarrow> ('a, 'w) NormalizedKeybindingItem \<Rightarrow> OutputBuilder\<close> where
  \<open>writeKeybindingItem ops quoteKb quoteCmd out item =
     (let quotedSerializedKeybinding = quoteKb (keybinding item);
          out1 = ob_write out (keyField quotedSerializedKeybinding);
          serializedWhen = (case when_expr item of None \<Rightarrow> [] | Some w \<Rightarrow> serialize ops w);
          quotedSerializeCommand = quoteCmd (command item);
          out2 =
            (if length serializedWhen > 0
             then ob_write (ob_writeLine (ob_write out1 (quotedSerializeCommand @ '','')) [])
                    (''                                     "when": "'' @ serializedWhen @ ''" '')
             else ob_write out1 (quotedSerializeCommand @ '' ''))
      in ob_write out2 ''}'')\<close>

section \<open>Notions used in the statements\<close>

text \<open>
  The key-press under which the constructor adds a rule to \<^verbatim>\<open>_map\<close>: none for a rule
  without keybinding, the first part for a chord.
\<close>

definition flatKey :: "('a, 'w) NormalizedKeybindingItem \<Rightarrow> nat option" where
  "flatKey item =
     (case keybinding item of
        None \<Rightarrow> None
      | Some (SimpleKeybinding v) \<Rightarrow> Some v
      | Some (ChordKeybinding keybindingFirstPart keybindingChordPart) \<Rightarrow> Some keybindingFirstPart)"

text \<open>
  The candidate list \<^verbatim>\<open>resolve\<close> hands to \<^verbatim>\<open>_findCommand\<close>: the bucket of \<^verbatim>\<open>_map\<close> when no
  chord is pending, the bucket of \<^verbatim>\<open>_chords\<close> otherwise (\<^verbatim>\<open>undefined\<close> is \<^term>\<open>None\<close>).
\<close>

definition candidates ::
  "('a, 'w) KeybindingResolver \<Rightarrow> nat option \<Rightarrow> nat \<Rightarrow> ('a, 'w) NormalizedKeybindingItem list option" where
  "candidates r pendingChord keypress =
     (case pendingChord of
        None \<Rightarrow> map' r keypress
      | Some chord \<Rightarrow> (case chords r chord of None \<Rightarrow> None | Some chs \<Rightarrow> chs keypress))"

text \<open>A bucket as a list, and a bucket after more rules have been pushed to it.\<close>

definition bucketList :: "'x list option \<Rightarrow> 'x list" where
  "bucketList b = (case b of None \<Rightarrow> [] | Some xs \<Rightarrow> xs)"

definition extendBucket :: "'x list option \<Rightarrow> 'x list \<Rightarrow> 'x list option" where
  "extendBucket b new = (if new = [] then b else Some (bucketList b @ new))"

text \<open>The clauses of a condition: the parts of its serialization between \<^verbatim>\<open>' && '\<close>.\<close>

definition clauses :: "('w, 'c) ContextKeyExprOps \<Rightarrow> 'w \<Rightarrow> string set" where
  "clauses ops w = set (js_split (serialize ops w) '' && '')"

text \<open>
  The shadow test in the words of the spec: \<open>c.when\<close> is entirely included in \<open>r.when\<close>
  when every clause of \<open>c.when\<close> is a clause of \<open>r.when\<close>; an absent condition is
  entirely included in anything and includes nothing but an absent condition.
\<close>

definition spec_entirelyIncluded ::
  "('w, 'c) ContextKeyExprOps \<Rightarrow> 'w option \<Rightarrow> 'w option \<Rightarrow> bool" where
  "spec_entirelyIncluded ops cWhen rWhen =
     (case cWhen of
        None \<Rightarrow> True
      | Some cw \<Rightarrow>
          (case rWhen of
             None \<Rightarrow> False
           | Some rw \<Rightarrow> clauses ops cw \<subseteq> clauses ops rw))"

text \<open>
  The warnings of a construction, stated on the combined rule list: each rule, in order,
  is compared with the earlier rules of its bucket, the latest first, and when the rule
  is a default one a warning is printed for each of them it shadows.
\<close>

definition warningFor ::
  "('a, 'w) NormalizedKeybindingItem \<Rightarrow> ('a, 'w) NormalizedKeybindingItem \<Rightarrow> Warning" where
  "warningFor item conflict = ConflictDetected (command conflict) (keybinding conflict) (command item)"

definition shadowedCandidates ::
  "('w, 'c) ContextKeyExprOps \<Rightarrow> ('a, 'w) NormalizedKeybindingItem list
    \<Rightarrow> ('a, 'w) NormalizedKeybindingItem \<Rightarrow> ('a, 'w) NormalizedKeybindingItem list" where
  "shadowedCandidates ops earlier item =
     filter (\<lambda>c. flatKey item \<noteq> None \<and> flatKey c = flatKey item \<and> isShadowedBy ops c item)
       (rev earlier)"

fun constructionWarnings ::
  "('w, 'c) ContextKeyExprOps \<Rightarrow> ('a, 'w) NormalizedKeybindingItem list
    \<Rightarrow> ('a, 'w) NormalizedKeybindingItem list \<Rightarrow> Warning list" where
  "constructionWarnings ops earlier [] = []"
| "constructionWarnings ops earlier (item # rest) =
     (if isDefault item then map (warningFor item) (shadowedCandidates ops earlier item) else [])
     @ constructionWarnings ops (earlier @ [item]) rest"

text \<open>Two resolvers hold the same index.\<close>

definition sameIndex :: "('a, 'w) KeybindingResolver \<Rightarrow> ('a, 'w) KeybindingResolver \<Rightarrow> bool" where
  "sameIndex r r' = (map' r = map' r' \<and> chords r = chords r' \<and> lookupMap r = lookupMap r')"

text \<open>The two shapes of a result of \<^verbatim>\<open>resolve\<close>.\<close>

definition invoke :: "('a, 'w) NormalizedKeybindingItem \<Rightarrow> 'a IResolveResult" where
  "invoke item = \<lparr> enterChord = None, commandId = command item,
                   res_commandArgs = commandArgs item, res_bubble = bubble item \<rparr>"

definition awaitChord :: "nat \<Rightarrow> 'a IResolveResult" where
  "awaitChord keypress = \<lparr> enterChord = Some keypress, commandId = None,
                           res_commandArgs = None, res_bubble = False \<rparr>"

text \<open>The state of the service with no chord pending.\<close>

definition idle :: ServiceState where
  "idle = \<lparr> currentChord = None, currentChordStatusMessage = None \<rparr>"

section \<open>A condition type for the examples\<close>

text \<open>
  The examples below need a concrete condition type. A condition is the text of a
  conjunction of context keys, its own serialization and normal form, and it holds in a
  context (the list of the keys that are set) when each of its clauses is in the context.
  \<open>rule\<close> builds a rule without arguments from a raw command with the constructor.
\<close>

definition clauseOps :: "(string, string list) ContextKeyExprOps" where
  "clauseOps = \<lparr> serialize = (\<lambda>w. w), normalize = (\<lambda>w. w), equals = (\<lambda>a b. a = b),
                 evaluate = (\<lambda>w ctx. list_all (\<lambda>cl. cl \<in> set ctx) (js_split w '' && '')) \<rparr>"

definition rule ::
  "Keybinding option \<Rightarrow> string \<Rightarrow> string option \<Rightarrow> bool \<Rightarrow> (unit, string) NormalizedKeybindingItem" where
  "rule kb cmd w isDef = mkNormalizedKeybindingItem kb (Some cmd) None w isDef"

text \<open>
  The resolvers of the examples: a chord among single key-presses with conditions, the
  same followed by a chord with the same first key, a chord bound again to another
  command, a chord followed by a single key-press rule on its first key, and a chord
  whose raw command is the caret alone. \<open>noModifier\<close> is \<^verbatim>\<open>isModifierKey\<close> for key-presses none of
  which is a modifier.
\<close>

definition chordExample :: "(unit, string) KeybindingResolver" where
  "chordExample =
     mkKeybindingResolver clauseOps
       [rule (Some (SimpleKeybinding 1)) ''W'' (Some ''x'') True,
        rule (Some (ChordKeybinding 1 2)) ''Z'' (Some ''y'') True]
       [rule (Some (SimpleKeybinding 1)) ''V'' (Some ''v'') False] True"

definition chordsExample :: "(unit, string) KeybindingResolver" where
  "chordsExample =
     mkKeybindingResolver clauseOps
       [rule (Some (SimpleKeybinding 1)) ''W'' (Some ''x'') True,
        rule (Some (ChordKeybinding 1 2)) ''Z'' (Some ''y'') True]
       [rule (Some (SimpleKeybinding 1)) ''V'' (Some ''v'') False,
        rule (Some (ChordKeybinding 1 3)) ''Q'' None False] True"

definition rebindChordExample :: "(unit, string) KeybindingResolver" where
  "rebindChordExample =
     mkKeybindingResolver clauseOps
       [rule (Some (ChordKeybinding 1 2)) ''Z'' None True]
       [rule (Some (ChordKeybinding 1 2)) ''Q'' None False] True"

definition overriddenChordExample :: "(unit, string) KeybindingResolver" where
  "overriddenChordExample =
     mkKeybindingResolver clauseOps
       [rule (Some (ChordKeybinding 1 2)) ''Z'' None True,
        rule (Some (SimpleKeybinding 1)) ''W'' None True] [] True"

definition noModifier :: "nat \<Rightarrow> bool" where
  "noModifier k = False"

text \<open>The rules of the examples have no arguments: \<^verbatim>\<open>null\<close>, for which the empty object is passed.\<close>

definition unitArgs :: "unit AnyOps" where
  "unitArgs = \<lparr> falsy = (\<lambda>a. False), emptyObject = () \<rparr>"

definition bareCaretExample :: "(unit, string) KeybindingResolver" where
  "bareCaretExample =
     mkKeybindingResolver clauseOps [] [rule (Some (ChordKeybinding 1 2)) ''^'' None False] True"

section \<open>Properties of the combiner\<close>

text \<open>
  The inner loop of \<^const>\<open>combine\<close> deletes by index from the end; on the first \<open>n\<close>
  entries it is a filter.
\<close>

lemma removeTargeted_filter:
  "n \<le> length xs \<Longrightarrow>
   removeTargeted ops kb cmd w xs n =
     filter (\<lambda>d. \<not> isTargetedForRemoval ops d kb cmd w) (take n xs) @ drop n xs"
proof (induction n arbitrary: xs)
  case 0
  then show ?case by simp
next
  case (Suc j)
  then have j: "j < length xs" by simp
  show ?case
  proof (cases "isTargetedForRemoval ops (xs ! j) kb cmd w")
    case True
    have len: "j \<le> length (splice1 xs j)" using j by (simp add: splice1_def)
    have t: "take j (splice1 xs j) = take j xs" using j by (simp add: splice1_def)
    have d: "drop j (splice1 xs j) = drop (Suc j) xs" using j by (simp add: splice1_def)
    show ?thesis using True Suc.IH[OF len] j
      by (simp add: t d take_Suc_conv_app_nth)
  next
    case False
    have len: "j \<le> length xs" using j by simp
    show ?thesis using False Suc.IH[OF len] j
      by (simp add: take_Suc_conv_app_nth Cons_nth_drop_Suc)
  qed
qed

lemma removeTargeted_all:
  "removeTargeted ops kb cmd w xs (length xs) =
     filter (\<lambda>d. \<not> isTargetedForRemoval ops d kb cmd w) xs"
  by (simp add: removeTargeted_filter)

lemma targeted_spec:
  "isRemovalDirective ov \<Longrightarrow>
   isTargetedForRemoval ops d (keybinding ov)
       (drop 1 (case command ov of None \<Rightarrow> [] | Some c \<Rightarrow> c)) (when_expr ov)
     = spec_deletes ops ov d"
  by (auto simp: isTargetedForRemoval_def spec_deletes_def isRemovalDirective_def kb_equals_def
      split: option.splits list.splits)

lemma combineLoop_filter:
  "combineLoop ops ds os raws =
     (filter (\<lambda>d. \<not> list_ex (\<lambda>ov. spec_deletes ops ov d) raws) ds,
      os @ filter (\<lambda>ov. \<not> isRemovalDirective ov) raws)"
proof (induction raws arbitrary: ds os)
  case Nil
  then show ?case by simp
next
  case (Cons ov rest)
  show ?case
  proof (cases "isRemovalDirective ov")
    case True
    have "\<And>d. isTargetedForRemoval ops d (keybinding ov)
             (drop (Suc 0) (case command ov of None \<Rightarrow> [] | Some c \<Rightarrow> c)) (when_expr ov)
           = spec_deletes ops ov d"
      using targeted_spec[OF True, of ops] by simp
    then show ?thesis using True
      by (simp add: Cons.IH removeTargeted_all conj_commute)
  next
    case False
    then have "\<And>d. \<not> spec_deletes ops ov d" by (simp add: spec_deletes_def)
    then show ?thesis using False by (simp add: Cons.IH)
  qed
qed

lemma combine_filter:
  "combine ops defaults overrides =
     filter (\<lambda>d. \<not> list_ex (\<lambda>ov. spec_deletes ops ov d) overrides) defaults
     @ filter (\<lambda>ov. \<not> isRemovalDirective ov) overrides"
  by (simp add: combine_def combineLoop_filter)

text \<open>
  Claim C4. \<^const>\<open>combine\<close> returns the defaults that no removal directive among the
  overrides deletes, in their order, followed by the overrides that are not removal
  directives, in their order. A removal directive (a command starting with \<^verbatim>\<open>'-'\<close>)
  deletes every default bound to its target command whose keybinding equals the
  directive's (or the directive has none) and whose condition equals the directive's (or
  the directive has none); the directive itself is not part of the result.
\<close>

theorem combine_removal_directives:
  "combine ops defaults overrides =
     filter (\<lambda>d. \<not> list_ex (\<lambda>ov. spec_deletes ops ov d) overrides) defaults
     @ filter (\<lambda>ov. \<not> isRemovalDirective ov) overrides"
  by (rule combine_filter)

theorem combine_removal_directives_witness:
  "combine clauseOps
     [rule (Some (SimpleKeybinding 1)) ''a'' None True,
      rule (Some (SimpleKeybinding 2)) ''b'' None True,
      rule (Some (ChordKeybinding 3 4)) ''a'' (Some ''x'') True,
      rule (Some (SimpleKeybinding 1)) ''c'' (Some ''x'') True]
     [rule None ''-a'' None False,
      rule (Some (SimpleKeybinding 5)) ''d'' None False,
      rule (Some (SimpleKeybinding 1)) ''-c'' (Some ''y'') False,
      rule (Some (SimpleKeybinding 6)) ''^e'' None False]
   = [rule (Some (SimpleKeybinding 2)) ''b'' None True,
      rule (Some (SimpleKeybinding 1)) ''c'' (Some ''x'') True,
      rule (Some (SimpleKeybinding 5)) ''d'' None False,
      rule (Some (SimpleKeybinding 6)) ''^e'' None False]"
  using combine_removal_directives [of clauseOps
     "[rule (Some (SimpleKeybinding 1)) ''a'' None True,
      rule (Some (SimpleKeybinding 2)) ''b'' None True,
      rule (Some (ChordKeybinding 3 4)) ''a'' (Some ''x'') True,
      rule (Some (SimpleKeybinding 1)) ''c'' (Some ''x'') True]"
     "[rule None ''-a'' None False,
      rule (Some (SimpleKeybinding 5)) ''d'' None False,
      rule (Some (SimpleKeybinding 1)) ''-c'' (Some ''y'') False,
      rule (Some (SimpleKeybinding 6)) ''^e'' None False]"]
  by (simp add: spec_deletes_def isRemovalDirective_def rule_def mkNormalizedKeybindingItem_def
      clauseOps_def)

text \<open>
  Claim C5. Combining a rule list with the empty list of overrides returns the rule list.
\<close>

theorem combine_empty_overrides: "combine ops R [] = R"
  by (simp add: combine_def)

theorem combine_empty_overrides_witness:
  "combine clauseOps [rule (Some (SimpleKeybinding 1)) ''a'' None True,
                      rule None ''-b'' (Some ''x'') True] []
   = [rule (Some (SimpleKeybinding 1)) ''a'' None True, rule None ''-b'' (Some ''x'') True]"
  using combine_empty_overrides [of clauseOps
     "[rule (Some (SimpleKeybinding 1)) ''a'' None True, rule None ''-b'' (Some ''x'') True]"]
  by simp

section \<open>What the index construction leaves unchanged\<close>

lemma addToLookupMap_fields [simp]:
  "defaultBoundCommands (addToLookupMap item r) = defaultBoundCommands r"
  "map' (addToLookupMap item r) = map' r"
  "chords (addToLookupMap item r) = chords r"
  "console (addToLookupMap item r) = console r"
  "shouldWarnOnConflict (addToLookupMap item r) = shouldWarnOnConflict r"
  "defaultKeybindings (addToLookupMap item r) = defaultKeybindings r"
  by (simp_all add: addToLookupMap_def split: option.splits list.splits)

lemma removeFromLookupMap_fields [simp]:
  "defaultBoundCommands (removeFromLookupMap item r) = defaultBoundCommands r"
  "map' (removeFromLookupMap item r) = map' r"
  "chords (removeFromLookupMap item r) = chords r"
  "console (removeFromLookupMap item r) = console r"
  "shouldWarnOnConflict (removeFromLookupMap item r) = shouldWarnOnConflict r"
  "defaultKeybindings (removeFromLookupMap item r) = defaultKeybindings r"
  by (simp_all add: removeFromLookupMap_def split: option.splits)

lemma conflictLoop_fields [simp]:
  "defaultBoundCommands (conflictLoop ops item cs r) = defaultBoundCommands r"
  "map' (conflictLoop ops item cs r) = map' r"
  "chords (conflictLoop ops item cs r) = chords r"
  "shouldWarnOnConflict (conflictLoop ops item cs r) = shouldWarnOnConflict r"
  "defaultKeybindings (conflictLoop ops item cs r) = defaultKeybindings r"
  by (induction cs arbitrary: r; simp)+

lemma addKeyPress_fields [simp]:
  "defaultBoundCommands (addKeyPress ops kp item r) = defaultBoundCommands r"
  "chords (addKeyPress ops kp item r) = chords r"
  "shouldWarnOnConflict (addKeyPress ops kp item r) = shouldWarnOnConflict r"
  "defaultKeybindings (addKeyPress ops kp item r) = defaultKeybindings r"
  by (simp_all add: addKeyPress_def Let_def split: option.splits)

lemma indexItem_fields [simp]:
  "defaultBoundCommands (indexItem ops k r) = defaultBoundCommands r"
  "shouldWarnOnConflict (indexItem ops k r) = shouldWarnOnConflict r"
  "defaultKeybindings (indexItem ops k r) = defaultKeybindings r"
  by (simp_all add: indexItem_def Let_def split: option.splits Keybinding.splits)

lemma indexAll_fields [simp]:
  "defaultBoundCommands (indexAll ops ks r) = defaultBoundCommands r"
  "shouldWarnOnConflict (indexAll ops ks r) = shouldWarnOnConflict r"
  "defaultKeybindings (indexAll ops ks r) = defaultKeybindings r"
  by (induction ks arbitrary: r; simp)+

section \<open>The default-bound commands\<close>

lemma boundCommandsLoop_eq:
  "boundCommandsLoop ks m c =
     (if c \<in> set (map (\<lambda>k. propertyKey (command k)) ks) then Some True else m c)"
  by (induction ks arbitrary: m) auto

text \<open>
  Claim C10. Two resolvers built from the same defaults report the same default-bound
  commands, whatever their overrides: the dictionary holds exactly the commands of the
  raw defaults (as property keys), also of defaults that a removal directive deletes and
  of defaults without keybinding.
\<close>

theorem defaultBoundCommands_from_raw_defaults:
  "getDefaultBoundCommands (mkKeybindingResolver ops D O1 w1)
     = getDefaultBoundCommands (mkKeybindingResolver ops D O2 w2)
   \<and> getDefaultBoundCommands (mkKeybindingResolver ops D O1 w1)
     = (\<lambda>c. if c \<in> set (map (\<lambda>d. propertyKey (command d)) D) then Some True else None)"
  by (simp add: getDefaultBoundCommands_def mkKeybindingResolver_def boundCommandsLoop_eq fun_eq_iff)

theorem defaultBoundCommands_from_raw_defaults_witness:
  "getDefaultBoundCommands
     (mkKeybindingResolver clauseOps
        [rule (Some (SimpleKeybinding 1)) ''a'' None True, rule None ''b'' None True]
        [rule None ''-a'' None False, rule None ''-b'' None False] True) ''a'' = Some True
   \<and> getDefaultBoundCommands
     (mkKeybindingResolver clauseOps
        [rule (Some (SimpleKeybinding 1)) ''a'' None True, rule None ''b'' None True]
        [rule None ''-a'' None False, rule None ''-b'' None False] True) ''b'' = Some True
   \<and> combine clauseOps
        [rule (Some (SimpleKeybinding 1)) ''a'' None True, rule None ''b'' None True]
        [rule None ''-a'' None False, rule None ''-b'' None False] = []"
proof -
  note t = defaultBoundCommands_from_raw_defaults [of clauseOps
        "[rule (Some (SimpleKeybinding 1)) ''a'' None True, rule None ''b'' None True]"
        "[rule None ''-a'' None False, rule None ''-b'' None False]" True
        "[]" False, THEN conjunct2, THEN fun_cong]
  show ?thesis
    using t [of "''a''"] t [of "''b''"]
    by (simp add: rule_def mkNormalizedKeybindingItem_def propertyKey_def combine_filter
        spec_deletes_def isRemovalDirective_def)
qed

section \<open>Padding of the key field\<close>

lemma js_join_replicate:
  "js_join ([] # replicate n []) sep = concat (replicate n sep)"
  by (induction n) simp_all

lemma rightPaddedString_eq:
  "rightPaddedString str minChars =
     (if length str < minChars then str @ replicate (minChars - length str - 1) CHR '' '' else str)"
proof (cases "length str < minChars")
  case True
  then obtain n where n: "minChars - length str = Suc n"
    by (metis Suc_diff_Suc)
  have "concat (replicate n '' '') = replicate n CHR '' ''"
    by (induction n) simp_all
  then have "js_join ([] # replicate n []) '' '' = replicate n CHR '' ''"
    by (simp only: js_join_replicate)
  then show ?thesis using True n
    by (simp add: rightPaddedString_def new_Array_def js_join_replicate)
next
  case False
  then show ?thesis by (simp add: rightPaddedString_def)
qed

lemma rightPaddedString_short:
  "length str < minChars \<Longrightarrow> length (rightPaddedString str minChars) = minChars - 1"
  by (simp add: rightPaddedString_eq)





section \<open>The buckets of the index\<close>

lemma resolve_candidates:
  "resolve ops r context cc keypress = resolveIn ops context cc keypress (candidates r cc keypress)"
  by (simp add: resolve_def candidates_def resolveIn_def findCommand_def split: option.splits)

lemma map'_addKeyPress:
  "map' (addKeyPress ops kp item r) = (map' r)(kp \<mapsto> bucketList (map' r kp) @ [item])"
  by (simp add: addKeyPress_def bucketList_def Let_def split: option.splits)

lemma candidates_indexItem:
  "candidates (indexItem ops k r) cc kp =
     (if (case cc of None \<Rightarrow> flatKey k = Some kp
                   | Some f \<Rightarrow> keybinding k = Some (ChordKeybinding f kp))
      then Some (bucketList (candidates r cc kp) @ [k])
      else candidates r cc kp)"
  by (auto simp: candidates_def indexItem_def flatKey_def map'_addKeyPress bucketList_def Let_def
      split: option.splits Keybinding.splits)

lemma extendBucket_snoc:
  "extendBucket (Some (bucketList b @ [k])) new = extendBucket b (k # new)"
  by (simp add: extendBucket_def bucketList_def)

lemma candidates_indexAll:
  "candidates (indexAll ops ks r) cc kp =
     extendBucket (candidates r cc kp)
       (filter (\<lambda>k. case cc of None \<Rightarrow> flatKey k = Some kp
                        | Some f \<Rightarrow> keybinding k = Some (ChordKeybinding f kp)) ks)"
proof (induction ks arbitrary: r)
  case Nil
  then show ?case by (simp add: extendBucket_def)
next
  case (Cons k ks)
  show ?case
    by (simp add: Cons.IH candidates_indexItem extendBucket_snoc) 
qed

lemma candidates_mk:
  "candidates (mkKeybindingResolver ops D ovs warn) cc kp =
     extendBucket None
       (filter (\<lambda>k. case cc of None \<Rightarrow> flatKey k = Some kp
                        | Some f \<Rightarrow> keybinding k = Some (ChordKeybinding f kp)) (combine ops D ovs))"
  by (simp add: mkKeybindingResolver_def candidates_indexAll) (simp add: candidates_def split: option.splits)

text \<open>Every rule of a bucket has a keybinding.\<close>

lemma indexed_rules_have_keybinding:
  assumes "candidates (mkKeybindingResolver ops D ovs warn) cc kp = Some xs"
  shows "list_all (\<lambda>k. keybinding k \<noteq> None) xs"
proof -
  let ?P = "\<lambda>k. case cc of None \<Rightarrow> flatKey k = Some kp
                        | Some f \<Rightarrow> keybinding k = Some (ChordKeybinding f kp)"
  have "xs = filter ?P (combine ops D ovs)"
    using assms by (simp add: candidates_mk extendBucket_def bucketList_def split: if_splits)
  moreover have "keybinding k \<noteq> None" if "?P k" for k
    using that by (cases cc) (auto simp: flatKey_def split: option.splits)
  ultimately show ?thesis
    by (auto simp: list_all_iff)
qed

lemma find_last_match:
  "Q y \<Longrightarrow> list_all (\<lambda>x. \<not> Q x) xs \<Longrightarrow> find Q (xs @ y # ys) = Some y"
  by (induction xs) auto

section \<open>The shadow test\<close>

lemma whenIsEntirelyIncluded_clauses:
  "whenIsEntirelyIncluded ops True a b =
     (case b of
        None \<Rightarrow> True
      | Some bw \<Rightarrow> (case a of None \<Rightarrow> False | Some aw \<Rightarrow> clauses ops bw \<subseteq> clauses ops aw))"
  by (auto simp: whenIsEntirelyIncluded_def clauses_def list_all_iff split: option.splits)

text \<open>
  Claim C1, as amended. For a rule \<open>r\<close> being inserted and a candidate \<open>c\<close> of its bucket
  with a different command that is not a chord with another sequence, the shadow test
  holds exactly when every clause of \<open>r.when\<close> is a clause of \<open>c.when\<close>; it holds for
  every \<open>c\<close> when \<open>r.when\<close> is absent, and when \<open>c.when\<close> is absent it holds only if
  \<open>r.when\<close> is absent too. This is the inclusion the claim states, with the two sides
  exchanged.
\<close>

theorem shadow_test_clauses:
  assumes "command c \<noteq> command r"
    and "\<not> (itemIsChord c \<and> itemIsChord r \<and> keybinding c \<noteq> keybinding r)"
  shows "isShadowedBy ops c r =
     (case when_expr r of
        None \<Rightarrow> True
      | Some rw \<Rightarrow>
          (case when_expr c of
             None \<Rightarrow> False
           | Some cw \<Rightarrow> clauses ops rw \<subseteq> clauses ops cw))"
  using assms by (auto simp: isShadowedBy_def whenIsEntirelyIncluded_clauses)

theorem shadow_test_clauses_witness:
  "command (rule (Some (SimpleKeybinding 1)) ''X'' (Some ''a && b'') True)
     \<noteq> command (rule (Some (SimpleKeybinding 1)) ''Y'' (Some ''a'') False)
   \<and> isShadowedBy clauseOps (rule (Some (SimpleKeybinding 1)) ''X'' (Some ''a && b'') True)
        (rule (Some (SimpleKeybinding 1)) ''Y'' (Some ''a'') False)
   \<and> clauses clauseOps ''a'' \<subseteq> clauses clauseOps ''a && b''
   \<and> \<not> isShadowedBy clauseOps (rule (Some (SimpleKeybinding 1)) ''Y'' (Some ''a'') False)
        (rule (Some (SimpleKeybinding 1)) ''X'' (Some ''a && b'') True)"
proof -
  have c: "command (rule (Some (SimpleKeybinding 1)) ''X'' (Some ''a && b'') True)
     \<noteq> command (rule (Some (SimpleKeybinding 1)) ''Y'' (Some ''a'') False)"
    by (simp add: rule_def mkNormalizedKeybindingItem_def)
  have k: "\<not> (itemIsChord (rule (Some (SimpleKeybinding 1)) ''X'' (Some ''a && b'') True)
     \<and> itemIsChord (rule (Some (SimpleKeybinding 1)) ''Y'' (Some ''a'') False)
     \<and> keybinding (rule (Some (SimpleKeybinding 1)) ''X'' (Some ''a && b'') True)
        \<noteq> keybinding (rule (Some (SimpleKeybinding 1)) ''Y'' (Some ''a'') False))"
    by (simp add: rule_def mkNormalizedKeybindingItem_def itemIsChord_def)
  have k': "\<not> (itemIsChord (rule (Some (SimpleKeybinding 1)) ''Y'' (Some ''a'') False)
     \<and> itemIsChord (rule (Some (SimpleKeybinding 1)) ''X'' (Some ''a && b'') True)
     \<and> keybinding (rule (Some (SimpleKeybinding 1)) ''Y'' (Some ''a'') False)
        \<noteq> keybinding (rule (Some (SimpleKeybinding 1)) ''X'' (Some ''a && b'') True))"
    by (simp add: rule_def mkNormalizedKeybindingItem_def itemIsChord_def)
  show ?thesis
    using c shadow_test_clauses [OF c k, of clauseOps] shadow_test_clauses [OF c [symmetric] k', of clauseOps]
    by (simp add: rule_def mkNormalizedKeybindingItem_def clauses_def clauseOps_def js_split_def)
qed

text \<open>
  The claim as stated fails: \<open>a && b\<close> is shadowed by \<open>a\<close> although not every clause of
  the candidate is a clause of the inserted rule, and a candidate without condition is
  not shadowed by \<open>a\<close>.
\<close>

theorem shadow_test_claimed_direction_counterexample:
  "isShadowedBy clauseOps (rule (Some (SimpleKeybinding 1)) ''X'' (Some ''a && b'') True)
        (rule (Some (SimpleKeybinding 1)) ''Y'' (Some ''a'') False)
   \<and> \<not> spec_entirelyIncluded clauseOps (Some ''a && b'') (Some ''a'')
   \<and> \<not> isShadowedBy clauseOps (rule (Some (SimpleKeybinding 1)) ''X'' None True)
        (rule (Some (SimpleKeybinding 1)) ''Y'' (Some ''a'') False)
   \<and> spec_entirelyIncluded clauseOps None (Some ''a'')"
  by (simp add: isShadowedBy_def whenIsEntirelyIncluded_def spec_entirelyIncluded_def clauses_def
      rule_def mkNormalizedKeybindingItem_def clauseOps_def js_split_def itemIsChord_def)

section \<open>Conflict warnings\<close>

lemma console_conflictLoop:
  "console (conflictLoop ops item cs r) =
     console r @ (if shouldWarnOnConflict r \<and> isDefault item
                  then map (warningFor item) (filter (\<lambda>c. isShadowedBy ops c item) cs) else [])"
  by (induction cs arbitrary: r) (simp_all add: warningFor_def)

lemma console_addKeyPress:
  "console (addKeyPress ops kp item r) =
     console r @ (if shouldWarnOnConflict r \<and> isDefault item
                  then map (warningFor item)
                         (filter (\<lambda>c. isShadowedBy ops c item) (rev (bucketList (map' r kp))))
                  else [])"
  by (simp add: addKeyPress_def bucketList_def console_conflictLoop Let_def split: option.splits)

lemma console_indexItem:
  "console (indexItem ops k r) =
     console r @ (if shouldWarnOnConflict r \<and> isDefault k
                  then map (warningFor k)
                         (case flatKey k of
                            None \<Rightarrow> []
                          | Some kp \<Rightarrow>
                              filter (\<lambda>c. isShadowedBy ops c k) (rev (bucketList (map' r kp))))
                  else [])"
  by (simp add: indexItem_def flatKey_def console_addKeyPress Let_def
      split: option.splits Keybinding.splits)

lemma map'_candidates: "map' r kp = candidates r None kp"
  by (simp add: candidates_def)

lemma bucket_indexItem:
  "bucketList (map' (indexItem ops k r) kp) =
     bucketList (map' r kp) @ (if flatKey k = Some kp then [k] else [])"
  by (simp add: map'_candidates candidates_indexItem) (simp add: bucketList_def)

lemma console_indexAll:
  "(\<And>kp. bucketList (map' r kp) = filter (\<lambda>c. flatKey c = Some kp) earlier) \<Longrightarrow>
   console (indexAll ops ks r) =
     console r @ (if shouldWarnOnConflict r then constructionWarnings ops earlier ks else [])"
proof (induction ks arbitrary: r earlier)
  case Nil
  then show ?case by simp
next
  case (Cons k ks)
  have inv: "bucketList (map' (indexItem ops k r) kp) = filter (\<lambda>c. flatKey c = Some kp) (earlier @ [k])"
    for kp
    by (simp add: bucket_indexItem Cons.prems)
  have sh: "(case flatKey k of
               None \<Rightarrow> []
             | Some kp \<Rightarrow> filter (\<lambda>c. isShadowedBy ops c k) (rev (bucketList (map' r kp))))
            = shadowedCandidates ops earlier k"
    by (auto simp: shadowedCandidates_def Cons.prems rev_filter [symmetric] conj_commute
        split: option.splits intro: filter_cong)
  show ?case
    by (simp add: Cons.IH [OF inv] console_indexItem sh)
qed

lemma console_mk:
  "console (mkKeybindingResolver ops D ovs warn) =
     (if warn then constructionWarnings ops [] (combine ops D ovs) else [])"
  by (simp add: mkKeybindingResolver_def console_indexAll [where earlier = "[]"] bucketList_def)

lemma lookupMap_addToLookupMap_cong:
  "lookupMap r = lookupMap r' \<Longrightarrow>
   lookupMap (addToLookupMap item r) = lookupMap (addToLookupMap item r')"
  by (simp add: addToLookupMap_def split: option.splits list.splits)

lemma lookupMap_removeFromLookupMap_cong:
  "lookupMap r = lookupMap r' \<Longrightarrow>
   lookupMap (removeFromLookupMap item r) = lookupMap (removeFromLookupMap item r')"
  by (simp add: removeFromLookupMap_def split: option.splits)

lemma lookupMap_conflictLoop_cong:
  "lookupMap r = lookupMap r' \<Longrightarrow>
   lookupMap (conflictLoop ops item cs r) = lookupMap (conflictLoop ops item cs r')"
proof (induction cs arbitrary: r r')
  case Nil
  then show ?case by simp
next
  case (Cons c cs)
  show ?case
  proof (cases "isShadowedBy ops c item")
    case True
    let ?w = "\<lambda>x. if shouldWarnOnConflict x \<and> isDefault item
                 then x\<lparr>console := console x @
                        [ConflictDetected (command c) (keybinding c) (command item)]\<rparr>
                 else x"
    have "lookupMap (?w r) = lookupMap (?w r')"
      using Cons.prems by simp
    then have "lookupMap (removeFromLookupMap c (?w r)) = lookupMap (removeFromLookupMap c (?w r'))"
      by (rule lookupMap_removeFromLookupMap_cong)
    then have "lookupMap (conflictLoop ops item cs (removeFromLookupMap c (?w r)))
             = lookupMap (conflictLoop ops item cs (removeFromLookupMap c (?w r')))"
      by (rule Cons.IH)
    then show ?thesis using True by simp
  next
    case False
    have "lookupMap (conflictLoop ops item cs r) = lookupMap (conflictLoop ops item cs r')"
      using Cons.prems by (rule Cons.IH)
    then show ?thesis using False by simp
  qed
qed

lemma sameIndex_addKeyPress:
  assumes "sameIndex r r'"
  shows "sameIndex (addKeyPress ops kp item r) (addKeyPress ops kp item r')"
proof -
  from assms have m: "map' r = map' r'" and c: "chords r = chords r'"
    and l: "lookupMap r = lookupMap r'"
    by (simp_all add: sameIndex_def)
  have "lookupMap (addKeyPress ops kp item r) = lookupMap (addKeyPress ops kp item r')"
    using m l
    by (auto simp: addKeyPress_def Let_def split: option.splits
        intro!: lookupMap_addToLookupMap_cong lookupMap_conflictLoop_cong)
  then show ?thesis
    using m c by (simp add: sameIndex_def map'_addKeyPress)
qed

lemma sameIndex_indexItem:
  assumes "sameIndex r r'"
  shows "sameIndex (indexItem ops k r) (indexItem ops k r')"
proof -
  have upd: "sameIndex (r\<lparr>chords := ch\<rparr>) (r'\<lparr>chords := ch\<rparr>)" for ch
    using assms by (simp add: sameIndex_def)
  from assms have c: "chords r = chords r'" by (simp add: sameIndex_def)
  show ?thesis
    using assms
    by (auto simp: indexItem_def Let_def c split: option.splits Keybinding.splits
        intro!: sameIndex_addKeyPress upd)
qed

lemma sameIndex_indexAll:
  "sameIndex r r' \<Longrightarrow> sameIndex (indexAll ops ks r) (indexAll ops ks r')"
  by (induction ks arbitrary: r r') (simp_all add: sameIndex_indexItem)

lemma sameIndex_mk:
  "sameIndex (mkKeybindingResolver ops D ovs w) (mkKeybindingResolver ops D ovs w')"
  unfolding mkKeybindingResolver_def
  by (rule sameIndex_indexAll) (simp add: sameIndex_def)

text \<open>
  Claim C3, as amended. The construction prints a warning exactly for each pair of a
  rule and an earlier rule of its bucket that it shadows such that the shadowing rule is
  a default one, provided warnings are switched on; the provenance of the shadowed rule
  is not looked at, and a rule shadowed by an override gives no warning. The warning is
  not fatal: the index is the same with and without warnings.
\<close>

theorem conflict_warning_policy:
  "console (mkKeybindingResolver ops D ovs warn) =
     (if warn then constructionWarnings ops [] (combine ops D ovs) else [])
   \<and> sameIndex (mkKeybindingResolver ops D ovs True) (mkKeybindingResolver ops D ovs False)"
  by (simp add: console_mk sameIndex_mk)

theorem conflict_warning_policy_witness:
  "console (mkKeybindingResolver clauseOps
      [rule (Some (SimpleKeybinding 1)) ''X'' (Some ''a'') True,
       rule (Some (SimpleKeybinding 1)) ''Y'' None True]
      [rule (Some (SimpleKeybinding 1)) ''Z'' None False] True)
     = [ConflictDetected (Some ''X'') (Some (SimpleKeybinding 1)) (Some ''Y'')]
   \<and> console (mkKeybindingResolver clauseOps
      [rule (Some (SimpleKeybinding 1)) ''X'' (Some ''a'') True,
       rule (Some (SimpleKeybinding 1)) ''Y'' None True]
      [rule (Some (SimpleKeybinding 1)) ''Z'' None False] False) = []"
proof -
  have w: "constructionWarnings clauseOps []
         (combine clauseOps
           [rule (Some (SimpleKeybinding 1)) ''X'' (Some ''a'') True,
            rule (Some (SimpleKeybinding 1)) ''Y'' None True]
           [rule (Some (SimpleKeybinding 1)) ''Z'' None False])
        = [ConflictDetected (Some ''X'') (Some (SimpleKeybinding 1)) (Some ''Y'')]"
    by code_simp
  show ?thesis
    using w conflict_warning_policy [of clauseOps
      "[rule (Some (SimpleKeybinding 1)) ''X'' (Some ''a'') True,
       rule (Some (SimpleKeybinding 1)) ''Y'' None True]"
      "[rule (Some (SimpleKeybinding 1)) ''Z'' None False]" True]
    conflict_warning_policy [of clauseOps
      "[rule (Some (SimpleKeybinding 1)) ''X'' (Some ''a'') True,
       rule (Some (SimpleKeybinding 1)) ''Y'' None True]"
      "[rule (Some (SimpleKeybinding 1)) ''Z'' None False]" False]
    by simp
qed

text \<open>
  The claim as stated fails: a default rule shadowed by an override gives no warning, and
  a default rule shadowed by a default rule gives one.
\<close>

theorem conflict_warning_claimed_policy_counterexample:
  "isDefault (rule (Some (SimpleKeybinding 1)) ''X'' None True)
   \<and> \<not> isDefault (rule (Some (SimpleKeybinding 1)) ''Y'' None False)
   \<and> isShadowedBy clauseOps (rule (Some (SimpleKeybinding 1)) ''X'' None True)
        (rule (Some (SimpleKeybinding 1)) ''Y'' None False)
   \<and> lookupKeybindings (mkKeybindingResolver clauseOps
        [rule (Some (SimpleKeybinding 1)) ''X'' None True]
        [rule (Some (SimpleKeybinding 1)) ''Y'' None False] True) ''X'' = []
   \<and> console (mkKeybindingResolver clauseOps
        [rule (Some (SimpleKeybinding 1)) ''X'' None True]
        [rule (Some (SimpleKeybinding 1)) ''Y'' None False] True) = []
   \<and> isDefault (rule (Some (SimpleKeybinding 1)) ''Y'' None True)
   \<and> console (mkKeybindingResolver clauseOps
        [rule (Some (SimpleKeybinding 1)) ''X'' None True,
         rule (Some (SimpleKeybinding 1)) ''Y'' None True] [] True)
       = [ConflictDetected (Some ''X'') (Some (SimpleKeybinding 1)) (Some ''Y'')]"
  by (simp add: mkKeybindingResolver_def combine_def isRemovalDirective_def rule_def
      mkNormalizedKeybindingItem_def indexItem_def addKeyPress_def addToLookupMap_def
      removeFromLookupMap_def isShadowedBy_def whenIsEntirelyIncluded_def itemIsChord_def
      lookupKeybindings_def)

section \<open>Total shadow\<close>

lemma resolveIn_Some:
  "findCommand ops ctx lookup = Some item \<Longrightarrow>
   resolveIn ops ctx cc kp lookup =
     (if cc = None \<and> itemIsChord item then Some (awaitChord kp) else Some (invoke item))"
  by (simp add: resolveIn_def invoke_def awaitChord_def)

lemma resolveIn_None:
  "findCommand ops ctx lookup = None \<Longrightarrow> resolveIn ops ctx cc kp lookup = None"
  by (simp add: resolveIn_def)

lemma lookup_two_rules:
  assumes "keybinding A = Some (SimpleKeybinding k)" and "keybinding B = Some (SimpleKeybinding k)"
    and "command A = Some X" and "command B = Some Y" and "X \<noteq> Y"
    and "whenIsEntirelyIncluded ops True (when_expr A) (when_expr B)"
    and "lookupMap r = Map.empty" and "map' r = Map.empty"
  shows "lookupKeybindings (indexAll ops [A, B] r) X = []"
proof -
  have sh: "isShadowedBy ops A B"
    using assms by (simp add: isShadowedBy_def itemIsChord_def)
  show ?thesis
  proof (cases X)
    case Nil
    then show ?thesis using assms sh
      by (cases Y)
        (auto simp: lookupKeybindings_def indexItem_def addKeyPress_def addToLookupMap_def
          removeFromLookupMap_def)
  next
    case (Cons x xs)
    then show ?thesis using assms sh
      by (cases Y)
        (auto simp: lookupKeybindings_def indexItem_def addKeyPress_def addToLookupMap_def
          removeFromLookupMap_def)
  qed
qed

text \<open>
  Claim C2, as amended. Let the index be built from rule \<open>A\<close> (command \<open>X\<close>, condition
  \<open>c1\<close>) and then rule \<open>B\<close> (another command \<open>Y\<close>, condition \<open>c2\<close>) on the same single
  key-press, the clauses of \<open>c2\<close> being clauses of \<open>c1\<close>. Then no keybinding is listed for
  \<open>X\<close>, and a context in which \<open>c2\<close> holds resolves to the invocation of \<open>Y\<close>. When a
  condition holds in the context exactly when each of its clauses does, no context
  satisfies \<open>c1\<close> but not \<open>c2\<close>, a context in which \<open>c2\<close> does not hold resolves to no
  match, and \<open>A\<close> is never the rule invoked: \<open>A\<close> is unreachable.
\<close>

theorem total_shadow:
  assumes built: "combine ops D ovs = [A, B]"
    and keyA: "keybinding A = Some (SimpleKeybinding k)"
    and keyB: "keybinding B = Some (SimpleKeybinding k)"
    and cmdA: "command A = Some X" and cmdB: "command B = Some Y" and diff: "X \<noteq> Y"
    and whenA: "when_expr A = Some c1" and whenB: "when_expr B = Some c2"
    and incl: "clauses ops c2 \<subseteq> clauses ops c1"
  shows "lookupKeybindings (mkKeybindingResolver ops D ovs warn) X = []
     \<and> (evaluate ops c2 ctx \<longrightarrow>
          resolve ops (mkKeybindingResolver ops D ovs warn) ctx None k = Some (invoke B))
     \<and> (evaluate ops c1 ctx = (\<forall>cl \<in> clauses ops c1. sat cl)
          \<and> evaluate ops c2 ctx = (\<forall>cl \<in> clauses ops c2. sat cl) \<longrightarrow>
          \<not> (evaluate ops c1 ctx \<and> \<not> evaluate ops c2 ctx)
          \<and> (\<not> evaluate ops c2 ctx \<longrightarrow>
               resolve ops (mkKeybindingResolver ops D ovs warn) ctx None k = None)
          \<and> resolve ops (mkKeybindingResolver ops D ovs warn) ctx None k \<noteq> Some (invoke A))"
proof -
  have w: "whenIsEntirelyIncluded ops True (when_expr A) (when_expr B)"
    using whenA whenB incl by (simp add: whenIsEntirelyIncluded_clauses)
  have l: "lookupKeybindings (mkKeybindingResolver ops D ovs warn) X = []"
    unfolding mkKeybindingResolver_def built
    by (rule lookup_two_rules [OF keyA keyB cmdA cmdB diff w]) simp_all
  have c: "candidates (mkKeybindingResolver ops D ovs warn) None k = Some [A, B]"
    using keyA keyB by (simp add: candidates_mk built flatKey_def extendBucket_def bucketList_def)
  have r: "resolve ops (mkKeybindingResolver ops D ovs warn) ctx None k
        = (if evaluate ops c2 ctx then Some (invoke B)
           else if evaluate ops c1 ctx then Some (invoke A) else None)"
    using keyA keyB whenA whenB
    by (simp add: resolve_candidates c resolveIn_def findCommand_def contextMatchesRules_def
        itemIsChord_def invoke_def)
  have ne: "invoke A \<noteq> invoke B"
    using cmdA cmdB diff by (auto simp: invoke_def)
  have second: "evaluate ops c2 ctx \<longrightarrow>
          resolve ops (mkKeybindingResolver ops D ovs warn) ctx None k = Some (invoke B)"
    using r by simp
  have third: "\<not> (evaluate ops c1 ctx \<and> \<not> evaluate ops c2 ctx)
          \<and> (\<not> evaluate ops c2 ctx \<longrightarrow>
               resolve ops (mkKeybindingResolver ops D ovs warn) ctx None k = None)
          \<and> resolve ops (mkKeybindingResolver ops D ovs warn) ctx None k \<noteq> Some (invoke A)"
    if e1: "evaluate ops c1 ctx = (\<forall>cl \<in> clauses ops c1. sat cl)"
      and e2: "evaluate ops c2 ctx = (\<forall>cl \<in> clauses ops c2. sat cl)"
  proof -
    have imp: "evaluate ops c2 ctx" if "evaluate ops c1 ctx"
    proof -
      from that e1 have "\<forall>cl \<in> clauses ops c1. sat cl" by simp
      with incl have "\<forall>cl \<in> clauses ops c2. sat cl" by blast
      with e2 show ?thesis by simp
    qed
    show ?thesis
    proof (cases "evaluate ops c2 ctx")
      case True
      then show ?thesis using r ne by simp
    next
      case False
      then have "\<not> evaluate ops c1 ctx" using imp by blast
      with False show ?thesis using r by simp
    qed
  qed
  show ?thesis
  proof (intro conjI impI)
    show "lookupKeybindings (mkKeybindingResolver ops D ovs warn) X = []" by (rule l)
  next
    assume "evaluate ops c2 ctx"
    with second show "resolve ops (mkKeybindingResolver ops D ovs warn) ctx None k = Some (invoke B)"
      by simp
  next
    assume h: "evaluate ops c1 ctx = (\<forall>cl \<in> clauses ops c1. sat cl)
          \<and> evaluate ops c2 ctx = (\<forall>cl \<in> clauses ops c2. sat cl)"
    note t = third [OF h [THEN conjunct1] h [THEN conjunct2]]
    show "\<not> (evaluate ops c1 ctx \<and> \<not> evaluate ops c2 ctx)"
      by (rule t [THEN conjunct1])
    show "resolve ops (mkKeybindingResolver ops D ovs warn) ctx None k = None"
      if "\<not> evaluate ops c2 ctx"
      using t [THEN conjunct2, THEN conjunct1] that by simp
    show "resolve ops (mkKeybindingResolver ops D ovs warn) ctx None k \<noteq> Some (invoke A)"
      by (rule t [THEN conjunct2, THEN conjunct2])
  qed
qed

theorem total_shadow_witness:
  "lookupKeybindings
     (mkKeybindingResolver clauseOps
        [rule (Some (SimpleKeybinding 1)) ''X'' (Some ''a && b'') True]
        [rule (Some (SimpleKeybinding 1)) ''Y'' (Some ''a'') False] True) ''X'' = []
   \<and> resolve clauseOps
     (mkKeybindingResolver clauseOps
        [rule (Some (SimpleKeybinding 1)) ''X'' (Some ''a && b'') True]
        [rule (Some (SimpleKeybinding 1)) ''Y'' (Some ''a'') False] True) [''a''] None 1
     = Some (invoke (rule (Some (SimpleKeybinding 1)) ''Y'' (Some ''a'') False))
   \<and> resolve clauseOps
     (mkKeybindingResolver clauseOps
        [rule (Some (SimpleKeybinding 1)) ''X'' (Some ''a && b'') True]
        [rule (Some (SimpleKeybinding 1)) ''Y'' (Some ''a'') False] True) [''b''] None 1
     = None"
proof -
  let ?A = "rule (Some (SimpleKeybinding 1)) ''X'' (Some ''a && b'') True"
  let ?B = "rule (Some (SimpleKeybinding 1)) ''Y'' (Some ''a'') False"
  have built: "combine clauseOps [?A] [?B] = [?A, ?B]"
    by (simp add: combine_filter spec_deletes_def isRemovalDirective_def rule_def
        mkNormalizedKeybindingItem_def)
  have keyA: "keybinding ?A = Some (SimpleKeybinding 1)"
    and keyB: "keybinding ?B = Some (SimpleKeybinding 1)"
    and cmdA: "command ?A = Some ''X''" and cmdB: "command ?B = Some ''Y''"
    and whenA: "when_expr ?A = Some ''a && b''" and whenB: "when_expr ?B = Some ''a''"
    by (simp_all add: rule_def mkNormalizedKeybindingItem_def)
  have diff: "''X'' \<noteq> ''Y''" by simp
  have incl: "clauses clauseOps ''a'' \<subseteq> clauses clauseOps ''a && b''"
    by (simp add: clauses_def clauseOps_def js_split_def)
  note t = total_shadow [OF built keyA keyB cmdA cmdB diff whenA whenB incl, of True]
  have e1: "evaluate clauseOps ''a'' [''a'']"
    and e2: "\<not> evaluate clauseOps ''a'' [''b'']"
    by (simp_all add: clauseOps_def js_split_def)
  have cj: "evaluate clauseOps ''a && b'' [''b'']
        = (\<forall>cl \<in> clauses clauseOps ''a && b''. cl \<in> set [''b''])
      \<and> evaluate clauseOps ''a'' [''b'']
        = (\<forall>cl \<in> clauses clauseOps ''a''. cl \<in> set [''b''])"
    by (simp add: clauseOps_def clauses_def list_all_iff)
  have l: "lookupKeybindings (mkKeybindingResolver clauseOps [?A] [?B] True) ''X'' = []"
    by (rule t [of "[''a'']" "\<lambda>cl. cl \<in> set [''a'']", THEN conjunct1])
  have ra: "resolve clauseOps (mkKeybindingResolver clauseOps [?A] [?B] True) [''a''] None 1
      = Some (invoke ?B)"
    by (rule t [of "[''a'']" "\<lambda>cl. cl \<in> set [''a'']", THEN conjunct2, THEN conjunct1,
          THEN mp, OF e1])
  have rb: "resolve clauseOps (mkKeybindingResolver clauseOps [?A] [?B] True) [''b''] None 1 = None"
    by (rule t [of "[''b'']" "\<lambda>cl. cl \<in> set [''b'']", THEN conjunct2, THEN conjunct2,
          THEN mp, OF cj, THEN conjunct2, THEN conjunct1, THEN mp, OF e2])
  show ?thesis
    using l ra rb by (intro conjI)
qed

text \<open>
  The claim as stated fails: with the clauses of \<open>c1\<close> among those of \<open>c2\<close>, rule \<open>A\<close>
  stays listed under \<open>X\<close>, and a context in which \<open>c1\<close> holds and \<open>c2\<close> does not resolves
  to the invocation of \<open>X\<close>.
\<close>

theorem total_shadow_claimed_direction_counterexample:
  "clauses clauseOps ''a'' \<subseteq> clauses clauseOps ''a && b''
   \<and> lookupKeybindings
     (mkKeybindingResolver clauseOps
        [rule (Some (SimpleKeybinding 1)) ''X'' (Some ''a'') True]
        [rule (Some (SimpleKeybinding 1)) ''Y'' (Some ''a && b'') False] True) ''X''
     = [rule (Some (SimpleKeybinding 1)) ''X'' (Some ''a'') True]
   \<and> evaluate clauseOps ''a'' [''a'']
   \<and> \<not> evaluate clauseOps ''a && b'' [''a'']
   \<and> resolve clauseOps
     (mkKeybindingResolver clauseOps
        [rule (Some (SimpleKeybinding 1)) ''X'' (Some ''a'') True]
        [rule (Some (SimpleKeybinding 1)) ''Y'' (Some ''a && b'') False] True) [''a''] None 1
     = Some (invoke (rule (Some (SimpleKeybinding 1)) ''X'' (Some ''a'') True))"
  by (simp add: clauses_def clauseOps_def js_split_def mkKeybindingResolver_def combine_def
      isRemovalDirective_def rule_def mkNormalizedKeybindingItem_def indexItem_def
      addKeyPress_def addToLookupMap_def removeFromLookupMap_def isShadowedBy_def
      whenIsEntirelyIncluded_def itemIsChord_def lookupKeybindings_def resolve_def
      resolveIn_def findCommand_def contextMatchesRules_def invoke_def)

section \<open>What a dispatch does, in terms of the resolve result\<close>

lemma shouldPreventDefault_dispatch:
  "shouldPreventDefault (dispatch ops isModifierKey statusService js r st kb ctx) =
     (\<not> isModifierKey kb \<and>
      (case resolve ops r ctx (currentChord st) kb of
         None \<Rightarrow> statusService \<and> currentChord st \<noteq> None
       | Some res \<Rightarrow>
           (case enterChord res of
              Some chord \<Rightarrow> True
            | None \<Rightarrow>
                (if truthy (commandId res) then \<not> res_bubble res
                 else statusService \<and> currentChord st \<noteq> None))))"
  by (auto simp: dispatch_def service_resolve_def Let_def split: option.splits)

lemma serviceAfter_dispatch:
  "serviceAfter (dispatch ops isModifierKey statusService js r st kb ctx) =
     (if isModifierKey kb then st
      else (case resolve ops r ctx (currentChord st) kb of
              None \<Rightarrow> idle
            | Some res \<Rightarrow>
                (case enterChord res of
                   Some chord \<Rightarrow>
                     (if statusService
                      then \<lparr> currentChord = Some chord,
                             currentChordStatusMessage = Some (FirstChord chord) \<rparr>
                      else st\<lparr>currentChord := Some chord\<rparr>)
                 | None \<Rightarrow> idle)))"
  by (auto simp: dispatch_def service_resolve_def idle_def Let_def split: option.splits)

lemma executed_dispatch:
  "executed (dispatch ops isModifierKey statusService js r st kb ctx) =
     (if isModifierKey kb then None
      else (case resolve ops r ctx (currentChord st) kb of
              None \<Rightarrow> None
            | Some res \<Rightarrow>
                (case enterChord res of
                   Some chord \<Rightarrow> None
                 | None \<Rightarrow>
                     (case commandId res of
                        None \<Rightarrow> None
                      | Some cmd \<Rightarrow>
                          (if cmd = [] then None
                           else Some (cmd, orEmptyObject js (res_commandArgs res)))))))"
  by (auto simp: dispatch_def service_resolve_def Let_def split: option.splits list.splits)

section \<open>The chord round trip\<close>

lemma find_last_of_filter:
  assumes "Q z" and "P z" and "list_all (\<lambda>y. \<not> (P y \<and> Q y)) post"
  shows "find Q (rev (filter P (pre @ z # post))) = Some z"
proof -
  have "list_all (\<lambda>x. \<not> Q x) (rev (filter P post))"
    using assms(3) by (induction post) (auto simp: list_all_iff)
  then have "find Q (rev (filter P post) @ z # rev (filter P pre)) = Some z"
    using assms(1) by (intro find_last_match)
  then show ?thesis using assms(2) by simp
qed

lemma candidates_last_match:
  assumes rules: "combine ops D ovs = pre @ z # post"
    and sel: "case cc of None \<Rightarrow> flatKey z = Some kp
                       | Some f \<Rightarrow> keybinding z = Some (ChordKeybinding f kp)"
    and holds: "contextMatchesRules ops ctx (when_expr z)"
    and later: "list_all (\<lambda>y. \<not> ((case cc of None \<Rightarrow> flatKey y = Some kp
                       | Some f \<Rightarrow> keybinding y = Some (ChordKeybinding f kp))
                    \<and> contextMatchesRules ops ctx (when_expr y))) post"
  shows "findCommand ops ctx (candidates (mkKeybindingResolver ops D ovs warn) cc kp) = Some z"
proof -
  let ?P = "\<lambda>k. case cc of None \<Rightarrow> flatKey k = Some kp
                        | Some f \<Rightarrow> keybinding k = Some (ChordKeybinding f kp)"
  have ne: "filter ?P (pre @ z # post) \<noteq> []"
    using sel by simp
  have "candidates (mkKeybindingResolver ops D ovs warn) cc kp = Some (filter ?P (pre @ z # post))"
    using ne by (simp only: candidates_mk rules extendBucket_def bucketList_def) simp
  moreover have "find (\<lambda>k. contextMatchesRules ops ctx (when_expr k)) (rev (filter ?P (pre @ z # post)))
      = Some z"
    using holds sel later by (rule find_last_of_filter)
  ultimately show ?thesis by (simp add: findCommand_def)
qed

lemma candidates_no_rule:
  assumes "list_all (\<lambda>y. \<not> (case cc of None \<Rightarrow> flatKey y = Some kp
                       | Some f \<Rightarrow> keybinding y = Some (ChordKeybinding f kp))) (combine ops D ovs)"
  shows "candidates (mkKeybindingResolver ops D ovs warn) cc kp = None"
proof -
  have "filter (\<lambda>k. case cc of None \<Rightarrow> flatKey k = Some kp
                        | Some f \<Rightarrow> keybinding k = Some (ChordKeybinding f kp)) (combine ops D ovs) = []"
    using assms by (simp add: filter_empty_conv list_all_iff)
  then show ?thesis
    by (simp only: candidates_mk extendBucket_def) simp
qed

lemma candidates_containing:
  assumes rules: "combine ops D ovs = pre @ z # post"
    and sel: "case cc of None \<Rightarrow> flatKey z = Some kp
                       | Some f \<Rightarrow> keybinding z = Some (ChordKeybinding f kp)"
  shows "candidates (mkKeybindingResolver ops D ovs warn) cc kp
       = Some (filter (\<lambda>k. case cc of None \<Rightarrow> flatKey k = Some kp
                               | Some f \<Rightarrow> keybinding k = Some (ChordKeybinding f kp))
                 (pre @ z # post))"
proof -
  let ?P = "\<lambda>k. case cc of None \<Rightarrow> flatKey k = Some kp
                        | Some f \<Rightarrow> keybinding k = Some (ChordKeybinding f kp)"
  have ne: "filter ?P (pre @ z # post) \<noteq> []"
    using sel by simp
  then show ?thesis
    by (simp only: candidates_mk rules extendBucket_def bucketList_def) simp
qed

lemma find_with_property:
  assumes "Q z" and "C z" and "list_all (\<lambda>x. \<not> Q x \<or> C x) xs"
  shows "\<exists>w. find Q (xs @ z # ys) = Some w \<and> C w"
  using assms by (induction xs) auto

text \<open>
  Claim C6, as amended. Let the combined rule list contain a chord rule \<open>(k1, k2)\<close> bound
  to \<open>Z\<close> whose condition holds in the context, such that no rule after it on the single
  key-press \<open>k1\<close> and no rule after it on the chord \<open>(k1, k2)\<close> has a condition that holds
  in the context, and let \<open>k1\<close> and \<open>k2\<close> not be modifier keys. Dispatching \<open>k1\<close> from the
  idle state resolves to the awaited chord \<open>k1\<close>, runs no command and leaves \<open>k1\<close>
  pending; dispatching \<open>k2\<close> next resolves to the invocation of \<open>Z\<close>, runs \<open>Z\<close> (when \<open>Z\<close>
  is not empty) with the arguments of the rule, or the empty object when they are falsy,
  and leaves the service idle; and dispatching, with \<open>k1\<close> pending, a key \<open>k3\<close> that is
  not a modifier and for which no rule has the chord \<open>(k1, k3)\<close> resolves to no match,
  runs nothing and leaves the service idle, so that the next key-press is resolved with
  no chord pending.
\<close>

theorem chord_round_trip:
  assumes rules: "combine ops D ovs = pre @ z # post"
    and r: "r = mkKeybindingResolver ops D ovs warn"
    and chord: "keybinding z = Some (ChordKeybinding k1 k2)"
    and cmd: "command z = Some Z"
    and holds: "contextMatchesRules ops ctx (when_expr z)"
    and later: "list_all (\<lambda>y. \<not> ((keybinding y = Some (SimpleKeybinding k1)
                                  \<or> keybinding y = Some (ChordKeybinding k1 k2))
                                 \<and> contextMatchesRules ops ctx (when_expr y))) post"
    and key1: "\<not> isModifierKey k1" and key2: "\<not> isModifierKey k2"
    and st1: "st1 = serviceAfter (dispatch ops isModifierKey statusService js r idle k1 ctx)"
  shows "resolve ops r ctx None k1 = Some (awaitChord k1)
     \<and> executed (dispatch ops isModifierKey statusService js r idle k1 ctx) = None
     \<and> currentChord st1 = Some k1
     \<and> resolve ops r ctx (Some k1) k2
         = Some \<lparr> enterChord = None, commandId = Some Z,
                  res_commandArgs = commandArgs z, res_bubble = bubble z \<rparr>
     \<and> executed (dispatch ops isModifierKey statusService js r st1 k2 ctx)
         = (if Z = [] then None else Some (Z, orEmptyObject js (commandArgs z)))
     \<and> serviceAfter (dispatch ops isModifierKey statusService js r st1 k2 ctx) = idle
     \<and> (\<not> isModifierKey k3
          \<and> list_all (\<lambda>y. keybinding y \<noteq> Some (ChordKeybinding k1 k3)) (pre @ z # post) \<longrightarrow>
          resolve ops r ctx' (Some k1) k3 = None
          \<and> executed (dispatch ops isModifierKey statusService js r st1 k3 ctx') = None
          \<and> serviceAfter (dispatch ops isModifierKey statusService js r st1 k3 ctx') = idle)"
proof -
  let ?Q = "\<lambda>k. contextMatchesRules ops ctx (when_expr k)"
  let ?P = "\<lambda>k. flatKey k = Some k1"
  have zc: "itemIsChord z" and zf: "flatKey z = Some k1"
    using chord by (simp_all add: itemIsChord_def flatKey_def)
  have c1: "candidates r None k1 = Some (filter ?P (pre @ z # post))"
    unfolding r using candidates_containing [OF rules, where cc = None and kp = k1] zf by simp
  have chords_after: "list_all (\<lambda>x. \<not> ?Q x \<or> itemIsChord x) (rev (filter ?P post))"
    using later
    by (auto simp: list_all_iff flatKey_def itemIsChord_def split: option.splits Keybinding.splits)
  obtain w where w: "find ?Q (rev (filter ?P post) @ z # rev (filter ?P pre)) = Some w"
    and wc: "itemIsChord w"
    using find_with_property [OF holds zc chords_after] by blast
  have f1: "findCommand ops ctx (candidates r None k1) = Some w"
    using w zf by (simp add: c1 findCommand_def)
  have res1: "resolve ops r ctx None k1 = Some (awaitChord k1)"
    by (simp add: resolve_candidates resolveIn_Some [OF f1] wc)
  have later2: "list_all (\<lambda>y. \<not> (keybinding y = Some (ChordKeybinding k1 k2)
                    \<and> contextMatchesRules ops ctx (when_expr y))) post"
    using later by (auto simp: list_all_iff)
  have f2: "findCommand ops ctx (candidates r (Some k1) k2) = Some z"
    unfolding r using rules _ holds
    by (rule candidates_last_match) (use later2 in \<open>simp_all add: chord\<close>)
  have res2: "resolve ops r ctx (Some k1) k2 = Some (invoke z)"
    by (simp add: resolve_candidates resolveIn_Some [OF f2])
  have ex1: "executed (dispatch ops isModifierKey statusService js r idle k1 ctx) = None"
    using key1 res1 by (simp add: executed_dispatch idle_def awaitChord_def)
  have cc1: "currentChord st1 = Some k1"
    using key1 res1 by (simp add: st1 serviceAfter_dispatch idle_def awaitChord_def)
  have ex2: "executed (dispatch ops isModifierKey statusService js r st1 k2 ctx)
         = (if Z = [] then None else Some (Z, orEmptyObject js (commandArgs z)))"
    using key2 res2 cmd by (simp add: executed_dispatch cc1 invoke_def)
  have af2: "serviceAfter (dispatch ops isModifierKey statusService js r st1 k2 ctx) = idle"
    using key2 res2 by (simp add: serviceAfter_dispatch cc1 invoke_def)
  have third: "resolve ops r ctx' (Some k1) k3 = None
          \<and> executed (dispatch ops isModifierKey statusService js r st1 k3 ctx') = None
          \<and> serviceAfter (dispatch ops isModifierKey statusService js r st1 k3 ctx') = idle"
    if key3: "\<not> isModifierKey k3"
      and none: "list_all (\<lambda>y. keybinding y \<noteq> Some (ChordKeybinding k1 k3)) (pre @ z # post)"
  proof -
    have "candidates r (Some k1) k3 = None"
      unfolding r by (rule candidates_no_rule) (use none in \<open>simp add: rules\<close>)
    then have res3: "resolve ops r ctx' (Some k1) k3 = None"
      by (simp add: resolve_candidates resolveIn_def findCommand_def)
    show ?thesis
      using key3 res3 by (simp add: executed_dispatch serviceAfter_dispatch cc1)
  qed
  show ?thesis
    using res1 ex1 cc1 res2 ex2 af2 third cmd by (simp add: invoke_def)
qed

theorem chord_round_trip_witness:
  "resolve clauseOps chordsExample [''x'', ''y''] None 1 = Some (awaitChord 1)
   \<and> currentChord (serviceAfter (dispatch clauseOps noModifier True unitArgs chordsExample idle 1
         [''x'', ''y''])) = Some 1
   \<and> executed (dispatch clauseOps noModifier True unitArgs chordsExample
         (serviceAfter (dispatch clauseOps noModifier True unitArgs chordsExample idle 1 [''x'', ''y'']))
         2 [''x'', ''y'']) = Some (''Z'', ())
   \<and> resolve clauseOps chordsExample [''x'', ''y''] (Some 1) 4 = None
   \<and> serviceAfter (dispatch clauseOps noModifier True unitArgs chordsExample
         (serviceAfter (dispatch clauseOps noModifier True unitArgs chordsExample idle 1 [''x'', ''y'']))
         4 [''x'', ''y'']) = idle"
proof -
  let ?W = "rule (Some (SimpleKeybinding 1)) ''W'' (Some ''x'') True"
  let ?Z = "rule (Some (ChordKeybinding 1 2)) ''Z'' (Some ''y'') True"
  let ?V = "rule (Some (SimpleKeybinding 1)) ''V'' (Some ''v'') False"
  let ?Q = "rule (Some (ChordKeybinding 1 3)) ''Q'' None False"
  have rules: "combine clauseOps [?W, ?Z] [?V, ?Q] = [?W] @ ?Z # [?V, ?Q]"
    by (simp add: combine_filter spec_deletes_def isRemovalDirective_def rule_def
        mkNormalizedKeybindingItem_def)
  have chord: "keybinding ?Z = Some (ChordKeybinding 1 2)" and cmd: "command ?Z = Some ''Z''"
    by (simp_all add: rule_def mkNormalizedKeybindingItem_def)
  have holds: "contextMatchesRules clauseOps [''x'', ''y''] (when_expr ?Z)"
    by (simp add: contextMatchesRules_def rule_def mkNormalizedKeybindingItem_def clauseOps_def
        js_split_def)
  have later: "list_all (\<lambda>y. \<not> ((keybinding y = Some (SimpleKeybinding 1)
                                  \<or> keybinding y = Some (ChordKeybinding 1 2))
       \<and> contextMatchesRules clauseOps [''x'', ''y''] (when_expr y))) [?V, ?Q]"
    by (simp add: contextMatchesRules_def rule_def mkNormalizedKeybindingItem_def clauseOps_def
        js_split_def)
  have keys: "\<not> noModifier 1" "\<not> noModifier 2" "\<not> noModifier 4"
    by (simp_all add: noModifier_def)
  have none: "list_all (\<lambda>y. keybinding y \<noteq> Some (ChordKeybinding 1 4)) ([?W] @ ?Z # [?V, ?Q])"
    by (simp add: rule_def mkNormalizedKeybindingItem_def)
  show ?thesis
    using chord_round_trip [OF rules chordsExample_def chord cmd holds later keys(1) keys(2) refl,
        where statusService = True and js = unitArgs and ?k3.0 = 4 and ctx' = "[''x'', ''y'']"]
      keys(3) none
    by (simp add: rule_def mkNormalizedKeybindingItem_def)
qed

text \<open>
  The claim as stated, for every index containing the chord rule, fails: a rule on the
  single key-press \<open>k1\<close> inserted after the chord rule wins the dispatch of \<open>k1\<close>, its
  command runs and no chord is awaited; and a rule on the chord \<open>(k1, k2)\<close> inserted after
  the chord rule wins the dispatch of \<open>k2\<close>, so that its command is invoked, not \<open>Z\<close>.
\<close>

theorem chord_later_rule_counterexample:
  "combine clauseOps
       [rule (Some (ChordKeybinding 1 2)) ''Z'' None True,
        rule (Some (SimpleKeybinding 1)) ''W'' None True] []
     = [rule (Some (ChordKeybinding 1 2)) ''Z'' None True,
        rule (Some (SimpleKeybinding 1)) ''W'' None True]
   \<and> contextMatchesRules clauseOps [] (when_expr (rule (Some (ChordKeybinding 1 2)) ''Z'' None True))
   \<and> resolve clauseOps overriddenChordExample [] None 1
       = Some (invoke (rule (Some (SimpleKeybinding 1)) ''W'' None True))
   \<and> executed (dispatch clauseOps noModifier True unitArgs overriddenChordExample idle 1 [])
       = Some (''W'', ())
   \<and> currentChord (serviceAfter (dispatch clauseOps noModifier True unitArgs overriddenChordExample idle 1 []))
       = None
   \<and> combine clauseOps
       [rule (Some (ChordKeybinding 1 2)) ''Z'' None True]
       [rule (Some (ChordKeybinding 1 2)) ''Q'' None False]
     = [rule (Some (ChordKeybinding 1 2)) ''Z'' None True,
        rule (Some (ChordKeybinding 1 2)) ''Q'' None False]
   \<and> resolve clauseOps rebindChordExample [] None 1 = Some (awaitChord 1)
   \<and> resolve clauseOps rebindChordExample [] (Some 1) 2
       = Some (invoke (rule (Some (ChordKeybinding 1 2)) ''Q'' None False))"
proof -
  have c: "candidates overriddenChordExample None 1
     = Some [rule (Some (ChordKeybinding 1 2)) ''Z'' None True,
             rule (Some (SimpleKeybinding 1)) ''W'' None True]"
    by (simp add: overriddenChordExample_def candidates_mk combine_def flatKey_def
        extendBucket_def bucketList_def rule_def mkNormalizedKeybindingItem_def)
  have r: "resolve clauseOps overriddenChordExample [] None 1
       = Some (invoke (rule (Some (SimpleKeybinding 1)) ''W'' None True))"
    using c
    by (simp add: resolve_candidates resolveIn_def findCommand_def contextMatchesRules_def
        itemIsChord_def invoke_def rule_def mkNormalizedKeybindingItem_def)
  have first: "combine clauseOps
       [rule (Some (ChordKeybinding 1 2)) ''Z'' None True,
        rule (Some (SimpleKeybinding 1)) ''W'' None True] []
     = [rule (Some (ChordKeybinding 1 2)) ''Z'' None True,
        rule (Some (SimpleKeybinding 1)) ''W'' None True]
   \<and> contextMatchesRules clauseOps [] (when_expr (rule (Some (ChordKeybinding 1 2)) ''Z'' None True))
   \<and> resolve clauseOps overriddenChordExample [] None 1
       = Some (invoke (rule (Some (SimpleKeybinding 1)) ''W'' None True))
   \<and> executed (dispatch clauseOps noModifier True unitArgs overriddenChordExample idle 1 [])
       = Some (''W'', ())
   \<and> currentChord (serviceAfter (dispatch clauseOps noModifier True unitArgs overriddenChordExample idle 1 []))
       = None"
    using r
    by (simp add: combine_def executed_dispatch serviceAfter_dispatch idle_def noModifier_def
        invoke_def contextMatchesRules_def rule_def mkNormalizedKeybindingItem_def)
  have b: "combine clauseOps
       [rule (Some (ChordKeybinding 1 2)) ''Z'' None True]
       [rule (Some (ChordKeybinding 1 2)) ''Q'' None False]
     = [rule (Some (ChordKeybinding 1 2)) ''Z'' None True,
        rule (Some (ChordKeybinding 1 2)) ''Q'' None False]"
    by (simp add: combine_filter spec_deletes_def isRemovalDirective_def rule_def
        mkNormalizedKeybindingItem_def)
  have c1: "candidates rebindChordExample None 1
     = Some [rule (Some (ChordKeybinding 1 2)) ''Z'' None True,
             rule (Some (ChordKeybinding 1 2)) ''Q'' None False]"
    and c2: "candidates rebindChordExample (Some 1) 2
     = Some [rule (Some (ChordKeybinding 1 2)) ''Z'' None True,
             rule (Some (ChordKeybinding 1 2)) ''Q'' None False]"
    by (simp_all add: rebindChordExample_def candidates_mk combine_filter spec_deletes_def
        isRemovalDirective_def flatKey_def
        extendBucket_def bucketList_def rule_def mkNormalizedKeybindingItem_def)
  have r1: "resolve clauseOps rebindChordExample [] None 1 = Some (awaitChord 1)"
    and r2: "resolve clauseOps rebindChordExample [] (Some 1) 2
       = Some (invoke (rule (Some (ChordKeybinding 1 2)) ''Q'' None False))"
    using c1 c2
    by (simp_all add: resolve_candidates resolveIn_def findCommand_def contextMatchesRules_def
        itemIsChord_def invoke_def awaitChord_def rule_def mkNormalizedKeybindingItem_def)
  show ?thesis
    using first b r1 r2 by (intro conjI) simp_all
qed

section \<open>The bubble flag\<close>

text \<open>
  Claim C7, as amended. A rule built from a raw command that starts with the caret has
  the rest as its command and \<open>bubble\<close> set. When it is the rule a key-press matches, and
  the key-press does not just enter its chord, \<^const>\<open>resolve\<close> returns the invocation of
  the stripped command with \<open>bubble\<close> set, and the dispatcher does not ask to suppress the
  default handling, unless the stripped command is empty, a chord is pending and there
  is a status service: then the key-press counts as a missing chord and is suppressed.
\<close>

theorem caret_marker_bubbles:
  assumes item: "item = mkNormalizedKeybindingItem kb (Some (CHR ''^'' # cmd)) args w isDef"
    and wins: "findCommand ops ctx (candidates r (currentChord st) k) = Some item"
    and invoked: "currentChord st = None \<longrightarrow> \<not> itemIsChord item"
  shows "command item = Some cmd \<and> bubble item
     \<and> resolve ops r ctx (currentChord st) k
         = Some \<lparr> enterChord = None, commandId = Some cmd,
                  res_commandArgs = args, res_bubble = True \<rparr>
     \<and> shouldPreventDefault (dispatch ops isModifierKey statusService js r st k ctx)
         = (\<not> isModifierKey k \<and> cmd = [] \<and> statusService \<and> currentChord st \<noteq> None)"
proof -
  have fields: "command item = Some cmd" "bubble item" "commandArgs item = args"
    by (simp_all add: item mkNormalizedKeybindingItem_def)
  have res: "resolve ops r ctx (currentChord st) k = Some (invoke item)"
    using invoked by (auto simp: resolve_candidates resolveIn_Some [OF wins])
  have t: "truthy (Some cmd) = (cmd \<noteq> [])"
    by (cases cmd) (simp_all add: truthy_def)
  show ?thesis
    using fields res t by (auto simp: shouldPreventDefault_dispatch invoke_def)
qed

theorem caret_marker_bubbles_witness:
  "command (rule (Some (SimpleKeybinding 7)) ''^save'' None False) = Some ''save''
   \<and> bubble (rule (Some (SimpleKeybinding 7)) ''^save'' None False)
   \<and> resolve clauseOps
        (mkKeybindingResolver clauseOps [] [rule (Some (SimpleKeybinding 7)) ''^save'' None False] True)
        [] None 7
       = Some \<lparr> enterChord = None, commandId = Some ''save'',
                res_commandArgs = None, res_bubble = True \<rparr>
   \<and> \<not> shouldPreventDefault (dispatch clauseOps noModifier True unitArgs
        (mkKeybindingResolver clauseOps [] [rule (Some (SimpleKeybinding 7)) ''^save'' None False] True)
        idle 7 [])"
proof -
  let ?S = "rule (Some (SimpleKeybinding 7)) ''^save'' None False"
  have item: "?S = mkNormalizedKeybindingItem (Some (SimpleKeybinding 7)) (Some (CHR ''^'' # ''save''))
                 None None False"
    by (simp add: rule_def)
  have rules: "combine clauseOps [] [?S] = [] @ ?S # []"
    by (simp add: combine_filter isRemovalDirective_def rule_def mkNormalizedKeybindingItem_def)
  have wins: "findCommand clauseOps []
        (candidates (mkKeybindingResolver clauseOps [] [?S] True) (currentChord idle) 7) = Some ?S"
    unfolding idle_def ServiceState.simps
    by (rule candidates_last_match [OF rules])
      (simp_all add: flatKey_def contextMatchesRules_def rule_def mkNormalizedKeybindingItem_def)
  have invoked: "currentChord idle = None \<longrightarrow> \<not> itemIsChord ?S"
    by (simp add: itemIsChord_def rule_def mkNormalizedKeybindingItem_def)
  show ?thesis
    using caret_marker_bubbles [OF item wins invoked,
        where isModifierKey = noModifier and statusService = True and js = unitArgs]
    by (simp add: idle_def)
qed

text \<open>
  The claim as stated, for every raw command that starts with the caret, fails for the
  caret alone as the command of a chord: the second key-press resolves to an invocation
  with \<open>bubble\<close> set, and the dispatcher asks to suppress the default handling.
\<close>

theorem bare_caret_counterexample:
  "rule (Some (ChordKeybinding 1 2)) ''^'' None False
     = mkNormalizedKeybindingItem (Some (ChordKeybinding 1 2)) (Some ''^'') None None False
   \<and> bubble (rule (Some (ChordKeybinding 1 2)) ''^'' None False)
   \<and> resolve clauseOps bareCaretExample [] None 1 = Some (awaitChord 1)
   \<and> resolve clauseOps bareCaretExample [] (Some 1) 2
       = Some (invoke (rule (Some (ChordKeybinding 1 2)) ''^'' None False))
   \<and> shouldPreventDefault (dispatch clauseOps noModifier True unitArgs bareCaretExample
        (serviceAfter (dispatch clauseOps noModifier True unitArgs bareCaretExample idle 1 [])) 2 [])"
proof -
  have c1: "candidates bareCaretExample None 1
     = Some [rule (Some (ChordKeybinding 1 2)) ''^'' None False]"
    and c2: "candidates bareCaretExample (Some 1) 2
     = Some [rule (Some (ChordKeybinding 1 2)) ''^'' None False]"
    by (simp_all add: bareCaretExample_def candidates_mk combine_def isRemovalDirective_def
        flatKey_def extendBucket_def bucketList_def rule_def mkNormalizedKeybindingItem_def)
  have r1: "resolve clauseOps bareCaretExample [] None 1 = Some (awaitChord 1)"
    and r2: "resolve clauseOps bareCaretExample [] (Some 1) 2
       = Some (invoke (rule (Some (ChordKeybinding 1 2)) ''^'' None False))"
    using c1 c2
    by (simp_all add: resolve_candidates resolveIn_def findCommand_def contextMatchesRules_def
        itemIsChord_def invoke_def awaitChord_def rule_def mkNormalizedKeybindingItem_def)
  have st: "currentChord (serviceAfter (dispatch clauseOps noModifier True unitArgs bareCaretExample idle 1 []))
      = Some 1"
    using r1 by (simp add: serviceAfter_dispatch idle_def noModifier_def awaitChord_def)
  show ?thesis
    using r1 r2 st
    by (simp add: shouldPreventDefault_dispatch noModifier_def truthy_def
        invoke_def rule_def mkNormalizedKeybindingItem_def)
qed

section \<open>Suppressing the default handling\<close>

lemma chordExample_resolve:
  "resolve clauseOps chordExample [''x'', ''y''] None 1 = Some (awaitChord 1)"
  "resolve clauseOps chordExample [''x'', ''y''] None 5 = None"
  "resolve clauseOps chordExample [''x'', ''y''] (Some 1) 3 = None"
  "resolve clauseOps chordExample [''x''] None 1
     = Some (invoke (rule (Some (SimpleKeybinding 1)) ''W'' (Some ''x'') True))"
proof -
  have c1: "candidates chordExample None 1
     = Some [rule (Some (SimpleKeybinding 1)) ''W'' (Some ''x'') True,
             rule (Some (ChordKeybinding 1 2)) ''Z'' (Some ''y'') True,
             rule (Some (SimpleKeybinding 1)) ''V'' (Some ''v'') False]"
    and c5: "candidates chordExample None 5 = None"
    and c3: "candidates chordExample (Some 1) 3 = None"
    by (simp_all add: chordExample_def candidates_mk combine_filter spec_deletes_def
        isRemovalDirective_def flatKey_def extendBucket_def bucketList_def rule_def
        mkNormalizedKeybindingItem_def)
  show "resolve clauseOps chordExample [''x'', ''y''] None 1 = Some (awaitChord 1)"
    "resolve clauseOps chordExample [''x'', ''y''] None 5 = None"
    "resolve clauseOps chordExample [''x'', ''y''] (Some 1) 3 = None"
    "resolve clauseOps chordExample [''x''] None 1
       = Some (invoke (rule (Some (SimpleKeybinding 1)) ''W'' (Some ''x'') True))"
    using c1 c5 c3
    by (simp_all add: resolve_candidates resolveIn_def findCommand_def contextMatchesRules_def
        itemIsChord_def invoke_def awaitChord_def rule_def mkNormalizedKeybindingItem_def
        clauseOps_def js_split_def)
qed

lemma chordExample_pending:
  "currentChord (serviceAfter (dispatch clauseOps noModifier status unitArgs chordExample idle 1 [''x'', ''y'']))
     = Some 1"
  using chordExample_resolve(1)
  by (simp add: serviceAfter_dispatch idle_def noModifier_def awaitChord_def)

text \<open>
  Claim C8, as amended. The dispatcher asks to suppress the default handling exactly
  when the key is not a modifier and either the key-press enters a chord, or a command
  with a non-empty identifier is run with \<open>bubble\<close> unset, or no command is run while a
  chord is pending and there is a status service (no match, or a match with an empty
  command). In particular it does not for a modifier key, for no match with no chord
  pending, for a command run with \<open>bubble\<close> set, and for a chord given up when there is no
  status service.
\<close>

theorem suppress_default_handling:
  "shouldPreventDefault (dispatch ops isModifierKey statusService js r st kb ctx) =
     (\<not> isModifierKey kb \<and>
      (case resolve ops r ctx (currentChord st) kb of
         None \<Rightarrow> statusService \<and> currentChord st \<noteq> None
       | Some res \<Rightarrow>
           (case enterChord res of
              Some chord \<Rightarrow> True
            | None \<Rightarrow>
                (if truthy (commandId res) then \<not> res_bubble res
                 else statusService \<and> currentChord st \<noteq> None))))"
  by (rule shouldPreventDefault_dispatch)

theorem suppress_default_handling_witness:
  "shouldPreventDefault (dispatch clauseOps noModifier True unitArgs chordExample idle 1 [''x'', ''y''])
   \<and> \<not> shouldPreventDefault (dispatch clauseOps noModifier True unitArgs chordExample idle 5 [''x'', ''y''])
   \<and> shouldPreventDefault (dispatch clauseOps noModifier True unitArgs chordExample
        (serviceAfter (dispatch clauseOps noModifier True unitArgs chordExample idle 1 [''x'', ''y'']))
        3 [''x'', ''y''])
   \<and> shouldPreventDefault (dispatch clauseOps noModifier True unitArgs chordExample idle 1 [''x''])"
  using chordExample_resolve chordExample_pending [of True]
    suppress_default_handling [of clauseOps noModifier True unitArgs chordExample idle 1 "[''x'', ''y'']"]
    suppress_default_handling [of clauseOps noModifier True unitArgs chordExample idle 5 "[''x'', ''y'']"]
    suppress_default_handling [of clauseOps noModifier True unitArgs chordExample
      "serviceAfter (dispatch clauseOps noModifier True unitArgs chordExample idle 1 [''x'', ''y''])"
      3 "[''x'', ''y'']"]
    suppress_default_handling [of clauseOps noModifier True unitArgs chordExample idle 1 "[''x'']"]
  by (simp add: idle_def noModifier_def awaitChord_def invoke_def truthy_def
      rule_def mkNormalizedKeybindingItem_def)

text \<open>
  The claim as stated fails: the first key-press of a chord is suppressed although no
  command is invoked and no chord is given up, and without a status service a chord
  given up without a match is not suppressed.
\<close>

theorem suppress_claimed_cases_counterexample:
  "currentChord idle = None
   \<and> resolve clauseOps chordExample [''x'', ''y''] None 1 = Some (awaitChord 1)
   \<and> shouldPreventDefault (dispatch clauseOps noModifier True unitArgs chordExample idle 1 [''x'', ''y''])
   \<and> currentChord (serviceAfter (dispatch clauseOps noModifier False unitArgs chordExample idle 1 [''x'', ''y'']))
       = Some 1
   \<and> resolve clauseOps chordExample [''x'', ''y''] (Some 1) 3 = None
   \<and> \<not> shouldPreventDefault (dispatch clauseOps noModifier False unitArgs chordExample
        (serviceAfter (dispatch clauseOps noModifier False unitArgs chordExample idle 1 [''x'', ''y'']))
        3 [''x'', ''y''])"
  using chordExample_resolve chordExample_pending [of False]
  by (simp add: shouldPreventDefault_dispatch idle_def noModifier_def awaitChord_def)

end
